theory Spec2Isabelle
  imports Main
begin

section \<open>The store (database/schema.sql)\<close>

text \<open>
  The reaction routes read and write six tables. Only the columns that the routes'
  statements mention in a condition or return are kept: a user is its id and username, an
  article or a comment is its id. The surrogate key \<open>id\<close> of a reaction row and its
  \<open>created_at\<close> are produced by the store (a sequence and the clock), are echoed in a
  response and take part in no decision, so a reaction row is the triple of its three
  foreign keys. Identifiers are the integers that the path segment, the request body and
  the columns denote; on them the handler's \<open>==\<close> is equality. A table is the list of its
  rows in the order the store returns them, so \<open>rows[0]\<close> is the head of a selection. The
  SELECTs of the routes have no ORDER BY: which of several rows of one user on one subject
  comes first is the store's choice, and the list order stands for that choice; here an
  INSERT puts the new row last.

  Every id column is an \<open>INTEGER\<close> (or \<open>SERIAL\<close>): it holds 32-bit signed values and
  nothing else, and a statement parameter that is compared with it or inserted into it is
  read as such a value. \<open>int4\<close> is that range.
\<close>

definition int4 :: "int \<Rightarrow> bool" where
  "int4 n = (- 2147483648 \<le> n \<and> n \<le> 2147483647)"

datatype subject_type = Article | Comment

record reaction_kind =
  kind_id :: int
  emoji :: string
  kind_name :: string

record reaction_row =
  subject_id :: int
  user_id :: int
  reaction_id :: int

record db =
  users_table :: "(int \<times> string) list"
  articles :: "int list"
  comments :: "int list"
  reactions_table :: "reaction_kind list"
  article_reactions :: "reaction_row list"
  comment_reactions :: "reaction_row list"

text \<open>
  The tables as the store holds them: each is read through the type of its id columns, so
  that every id found in a table is an \<open>int4\<close>. The two handlers of each pair differ in the
  tables they name and in nothing else; \<open>subjects\<close> and \<open>assignments\<close> choose the table.
\<close>

definition users :: "db \<Rightarrow> (int \<times> string) list" where
  "users d = filter (\<lambda>u. int4 (fst u)) (users_table d)"

definition reactions :: "db \<Rightarrow> reaction_kind list" where
  "reactions d = filter (\<lambda>k. int4 (kind_id k)) (reactions_table d)"

definition subjects :: "subject_type \<Rightarrow> db \<Rightarrow> int list" where
  "subjects st d = filter int4 (case st of Article \<Rightarrow> articles d | Comment \<Rightarrow> comments d)"

definition row_int4 :: "reaction_row \<Rightarrow> bool" where
  "row_int4 r = (int4 (subject_id r) \<and> int4 (user_id r) \<and> int4 (reaction_id r))"

definition assignments :: "subject_type \<Rightarrow> db \<Rightarrow> reaction_row list" where
  "assignments st d =
     filter row_int4 (case st of Article \<Rightarrow> article_reactions d | Comment \<Rightarrow> comment_reactions d)"

definition set_assignments :: "subject_type \<Rightarrow> reaction_row list \<Rightarrow> db \<Rightarrow> db" where
  "set_assignments st rows d =
     (case st of Article \<Rightarrow> d\<lparr>article_reactions := rows\<rparr>
               | Comment \<Rightarrow> d\<lparr>comment_reactions := rows\<rparr>)"

subsection \<open>The statements the routes send\<close>

text \<open>
  \<open>db.query(text, params)\<close>: the store first reads every parameter as the \<open>INTEGER\<close> it
  stands for. A parameter outside the 32-bit range makes the statement raise (a path id
  or a \<open>reaction_id\<close> of 2147483648, which the validation lets through, does); otherwise
  the statement runs. The definitions that follow say what each statement does once its
  parameters are read.
\<close>

datatype db_error = Out_of_range | Foreign_key_violation | Unique_violation

definition query :: "int list \<Rightarrow> db_error + 'a \<Rightarrow> db_error + 'a" where
  "query params statement = (if list_all int4 params then statement else Inl Out_of_range)"

text \<open>\<^verbatim>\<open>SELECT id FROM articles WHERE id = $1\<close> (and the same on \<open>comments\<close>).\<close>

definition select_subject :: "subject_type \<Rightarrow> db \<Rightarrow> int \<Rightarrow> int list" where
  "select_subject st d sid = filter (\<lambda>a. a = sid) (subjects st d)"

text \<open>\<^verbatim>\<open>SELECT id, emoji, name FROM reactions WHERE id = $1\<close>\<close>

definition select_reaction :: "db \<Rightarrow> int \<Rightarrow> reaction_kind list" where
  "select_reaction d rid = filter (\<lambda>k. kind_id k = rid) (reactions d)"

text \<open>\<^verbatim>\<open>SELECT id, reaction_id FROM article_reactions WHERE article_id = $1 AND user_id = $2\<close>\<close>

definition owned :: "int \<Rightarrow> int \<Rightarrow> reaction_row \<Rightarrow> bool" where
  "owned sid uid r = (subject_id r = sid \<and> user_id r = uid)"

definition select_existing :: "subject_type \<Rightarrow> db \<Rightarrow> int \<Rightarrow> int \<Rightarrow> reaction_row list" where
  "select_existing st d sid uid = filter (owned sid uid) (assignments st d)"

text \<open>
  \<^verbatim>\<open>DELETE FROM article_reactions WHERE article_id = $1 AND user_id = $2 RETURNING id\<close>:
  the deleted rows and the store without them. The condition names no reaction kind.
\<close>

definition delete_existing :: "subject_type \<Rightarrow> int \<Rightarrow> int \<Rightarrow> db \<Rightarrow> reaction_row list \<times> db" where
  "delete_existing st sid uid d =
     (filter (owned sid uid) (assignments st d),
      set_assignments st (filter (\<lambda>r. \<not> owned sid uid r) (assignments st d)) d)"

text \<open>
  \<^verbatim>\<open>INSERT INTO article_reactions (article_id, user_id, reaction_id) VALUES ($1, $2, $3)\<close>
  under the constraints the schema declares on the table: the three \<open>REFERENCES\<close> and
  \<open>UNIQUE(article_id, user_id, reaction_id)\<close>. A violated constraint makes the statement
  raise and leaves the table as it was.
\<close>

definition insert_reaction :: "subject_type \<Rightarrow> int \<Rightarrow> int \<Rightarrow> int \<Rightarrow> db \<Rightarrow> db_error + db" where
  "insert_reaction st sid uid rid d =
     (let new = \<lparr>subject_id = sid, user_id = uid, reaction_id = rid\<rparr> in
      if sid \<in> set (subjects st d) \<and> uid \<in> set (map fst (users d))
           \<and> rid \<in> set (map kind_id (reactions d))
      then (if new \<in> set (assignments st d) then Inl Unique_violation
            else Inr (set_assignments st (assignments st d @ [new]) d))
      else Inl Foreign_key_violation)"

section \<open>Responses\<close>

text \<open>
  The message texts of the source, by name:
  \<open>Subject_not_found\<close> is "article not found" and "comment not found",
  \<open>Reaction_not_found\<close> "reaction not found", \<open>Already_reacted\<close> "you have already set this
  reaction", \<open>Reaction_added\<close> and \<open>Reaction_changed\<close> "reaction successfully added" and
  "... changed", \<open>Reaction_removed\<close> "reaction successfully removed", \<open>Server_error\<close> the
  answer of every \<open>catch\<close>, \<open>Validation_error\<close> the answer of the \<open>validate\<close> middleware.
\<close>

datatype message =
    Subject_not_found subject_type
  | Reaction_not_found
  | Already_reacted
  | Reaction_added
  | Reaction_changed
  | Reaction_removed
  | Server_error
  | Validation_error

record reaction_payload =
  p_subject_id :: int
  p_user_id :: int
  p_reaction_id :: int
  p_emoji :: string
  p_name :: string

datatype response = Response (status: nat) (message: message) (reaction: "reaction_payload option")

section \<open>The reaction routes\<close>

subsection \<open>POST /article/:articleId and POST /comment/:commentId\<close>

text \<open>
  The handler after \<open>authenticateToken\<close> and \<open>validate\<close> have let the request through:
  \<open>sid\<close> is the path parameter, \<open>uid\<close> is \<open>req.user.id\<close>, \<open>rid\<close> is \<open>req.body.reaction_id\<close>.
  \<open>reaction_json\<close> is the \<open>reaction\<close> object of the 201 answer, without the \<open>id\<close> and
  \<open>created_at\<close> the INSERT returns. Each branch is one of the source's \<open>return\<close>s; a
  statement that raises is caught by the handler's \<open>catch\<close>, which answers 500 and undoes
  nothing, so a failing INSERT after the DELETE leaves the rows deleted.
\<close>

definition reaction_json :: "int \<Rightarrow> int \<Rightarrow> int \<Rightarrow> reaction_kind \<Rightarrow> reaction_payload" where
  "reaction_json sid uid rid k =
     \<lparr>p_subject_id = sid, p_user_id = uid, p_reaction_id = rid,
      p_emoji = emoji k, p_name = kind_name k\<rparr>"

definition post_reaction :: "subject_type \<Rightarrow> int \<Rightarrow> int \<Rightarrow> int \<Rightarrow> db \<Rightarrow> response \<times> db" where
  "post_reaction st sid uid rid d =
     (case query [sid] (Inr (select_subject st d sid)) of
        Inl e \<Rightarrow> (Response 500 Server_error None, d)
      | Inr articleExists \<Rightarrow>
          if articleExists = [] then (Response 404 (Subject_not_found st) None, d)
          else
            case query [rid] (Inr (select_reaction d rid)) of
              Inl e \<Rightarrow> (Response 500 Server_error None, d)
            | Inr reactionExists \<Rightarrow>
                if reactionExists = [] then (Response 404 Reaction_not_found None, d)
                else
                  case query [sid, uid] (Inr (select_existing st d sid uid)) of
                    Inl e \<Rightarrow> (Response 500 Server_error None, d)
                  | Inr existingReaction \<Rightarrow>
                      if existingReaction \<noteq> [] \<and> reaction_id (hd existingReaction) = rid
                      then (Response 400 Already_reacted None, d)
                      else
                        case (if existingReaction \<noteq> []
                              then query [sid, uid] (Inr (snd (delete_existing st sid uid d)))
                              else Inr d) of
                          Inl e \<Rightarrow> (Response 500 Server_error None, d)
                        | Inr d1 \<Rightarrow>
                            case query [sid, uid, rid] (insert_reaction st sid uid rid d1) of
                              Inl e \<Rightarrow> (Response 500 Server_error None, d1)
                            | Inr d2 \<Rightarrow>
                                (Response 201
                                   (if existingReaction \<noteq> [] then Reaction_changed
                                    else Reaction_added)
                                   (Some (reaction_json sid uid rid (hd reactionExists))),
                                 d2))"

subsection \<open>DELETE /article/:articleId and DELETE /comment/:commentId\<close>

text \<open>
  The handler reads the path parameter and \<open>req.user.id\<close> only. It answers through
  \<open>res.json\<close> without a status, which is 200.
\<close>

definition delete_reaction :: "subject_type \<Rightarrow> int \<Rightarrow> int \<Rightarrow> db \<Rightarrow> response \<times> db" where
  "delete_reaction st sid uid d =
     (case query [sid] (Inr (select_subject st d sid)) of
        Inl e \<Rightarrow> (Response 500 Server_error None, d)
      | Inr articleExists \<Rightarrow>
          if articleExists = [] then (Response 404 (Subject_not_found st) None, d)
          else
            case query [sid, uid] (Inr (delete_existing st sid uid d)) of
              Inl e \<Rightarrow> (Response 500 Server_error None, d)
            | Inr result \<Rightarrow>
                if fst result = [] then (Response 404 Reaction_not_found None, snd result)
                else (Response 200 Reaction_removed None, snd result))"

subsection \<open>The middleware in front of the handlers\<close>

text \<open>
  What a reaction handler reads of a request: the path parameter, the body's
  \<open>reaction_id\<close> (\<open>None\<close> when the body has none) and the identity \<open>authenticateToken\<close>
  has stored in \<open>req.user\<close>. \<open>validate(reactionSchemas.create)\<close> stands in front of the POST and
  of the DELETE routes alike: it accepts a body whose \<open>reaction_id\<close> is a positive integer
  that Joi's \<open>number()\<close> takes as safe (at most 9007199254740991, the largest integer a
  JavaScript number holds exactly), and answers 400 otherwise, without calling the handler.
  The bound of the store's \<open>INTEGER\<close> is not checked here.
\<close>

record request =
  params_id :: int
  body_reaction_id :: "int option"
  req_user :: int

definition validate_reaction :: "int option \<Rightarrow> bool" where
  "validate_reaction b =
     (case b of None \<Rightarrow> False | Some n \<Rightarrow> 0 < n \<and> n \<le> 9007199254740991)"

definition route_post :: "subject_type \<Rightarrow> request \<Rightarrow> db \<Rightarrow> response \<times> db" where
  "route_post st req d =
     (case body_reaction_id req of
        None \<Rightarrow> (Response 400 Validation_error None, d)
      | Some rid \<Rightarrow>
          if validate_reaction (Some rid)
          then post_reaction st (params_id req) (req_user req) rid d
          else (Response 400 Validation_error None, d))"

definition route_delete :: "subject_type \<Rightarrow> request \<Rightarrow> db \<Rightarrow> response \<times> db" where
  "route_delete st req d =
     (if validate_reaction (body_reaction_id req)
      then delete_reaction st (params_id req) (req_user req) d
      else (Response 400 Validation_error None, d))"

section \<open>The single-assignment invariant and runs of operations\<close>

text \<open>
  \<open>key\<close> is the pair (subject, user) of a row. The invariant says that no two rows of a
  reaction table have the same key.
\<close>

definition key :: "reaction_row \<Rightarrow> int \<times> int" where
  "key r = (subject_id r, user_id r)"

definition single_assignment :: "db \<Rightarrow> bool" where
  "single_assignment d =
     (distinct (map key (assignments Article d)) \<and> distinct (map key (assignments Comment d)))"

text \<open>A sequential run: each operation is one request, handled to its end before the next.\<close>

datatype operation = Assign subject_type int int int | Remove subject_type int int

fun apply_operation :: "operation \<Rightarrow> db \<Rightarrow> db" where
  "apply_operation (Assign st sid uid rid) d = snd (post_reaction st sid uid rid d)"
| "apply_operation (Remove st sid uid) d = snd (delete_reaction st sid uid d)"

definition run_operations :: "operation list \<Rightarrow> db \<Rightarrow> db" where
  "run_operations ops d = fold apply_operation ops d"

section \<open>Sample stores\<close>

text \<open>
  \<open>db0\<close>: three users, one article, one comment, five kinds, no reaction yet.
  \<open>db1\<close>: user 1 holds kind 1 on article 1. \<open>db2\<close>: user 1 has two rows on article 1, of
  kinds 1 and 2, which the schema's \<open>UNIQUE(article_id, user_id, reaction_id)\<close> admits.
  \<open>db3\<close>: the three users hold the kinds 1, 2 and 3 on article 1.
\<close>

definition db0 :: db where
  "db0 = \<lparr>users_table = [(1, ''alice''), (2, ''bob''), (3, ''carol'')],
          articles = [1], comments = [1],
          reactions_table = [\<lparr>kind_id = 1, emoji = ''+1'', kind_name = ''like''\<rparr>,
                             \<lparr>kind_id = 2, emoji = ''-1'', kind_name = ''dislike''\<rparr>,
                             \<lparr>kind_id = 3, emoji = ''<3'', kind_name = ''love''\<rparr>,
                             \<lparr>kind_id = 4, emoji = '':D'', kind_name = ''laugh''\<rparr>,
                             \<lparr>kind_id = 5, emoji = '':o'', kind_name = ''wow''\<rparr>],
          article_reactions = [], comment_reactions = []\<rparr>"

definition db1 :: db where
  "db1 = db0\<lparr>article_reactions := [\<lparr>subject_id = 1, user_id = 1, reaction_id = 1\<rparr>]\<rparr>"

definition db2 :: db where
  "db2 = db0\<lparr>article_reactions :=
               [\<lparr>subject_id = 1, user_id = 1, reaction_id = 1\<rparr>,
                \<lparr>subject_id = 1, user_id = 1, reaction_id = 2\<rparr>]\<rparr>"

definition db3 :: db where
  "db3 = db0\<lparr>article_reactions :=
               [\<lparr>subject_id = 1, user_id = 1, reaction_id = 1\<rparr>,
                \<lparr>subject_id = 1, user_id = 2, reaction_id = 2\<rparr>,
                \<lparr>subject_id = 1, user_id = 3, reaction_id = 3\<rparr>]\<rparr>"

section \<open>The POST handler, statement by statement\<close>

text \<open>
  Each \<open>await db.query(...)\<close> of the handler is one statement that the store executes on
  its own: the repository opens no transaction anywhere (\<open>config/database.js\<close> hands every
  statement to the pool), so the store is visible, and open to the statements of other
  requests, between any two of them. A \<open>position\<close> is where a request stands, with the
  local variables it has read so far; \<open>post_step\<close> sends its next statement. The branches
  are those of \<open>post_reaction\<close>.
\<close>

datatype position =
    Start
  | Subject_checked
  | Reaction_checked "reaction_kind list"
  | Existing_read "reaction_kind list" "reaction_row list"
  | Existing_deleted "reaction_kind list" "reaction_row list"
  | Finished response

definition insert_step ::
  "subject_type \<Rightarrow> int \<Rightarrow> int \<Rightarrow> int \<Rightarrow> reaction_kind list \<Rightarrow> reaction_row list \<Rightarrow> db
     \<Rightarrow> position \<times> db" where
  "insert_step st sid uid rid reactionExists existingReaction d =
     (case query [sid, uid, rid] (insert_reaction st sid uid rid d) of
        Inl e \<Rightarrow> (Finished (Response 500 Server_error None), d)
      | Inr d2 \<Rightarrow>
          (Finished (Response 201
             (if existingReaction \<noteq> [] then Reaction_changed else Reaction_added)
             (Some (reaction_json sid uid rid (hd reactionExists)))),
           d2))"

fun post_step :: "subject_type \<Rightarrow> int \<Rightarrow> int \<Rightarrow> int \<Rightarrow> position \<Rightarrow> db \<Rightarrow> position \<times> db" where
  "post_step st sid uid rid Start d =
     (case query [sid] (Inr (select_subject st d sid)) of
        Inl e \<Rightarrow> (Finished (Response 500 Server_error None), d)
      | Inr articleExists \<Rightarrow>
          if articleExists = []
          then (Finished (Response 404 (Subject_not_found st) None), d)
          else (Subject_checked, d))"
| "post_step st sid uid rid Subject_checked d =
     (case query [rid] (Inr (select_reaction d rid)) of
        Inl e \<Rightarrow> (Finished (Response 500 Server_error None), d)
      | Inr reactionExists \<Rightarrow>
          if reactionExists = [] then (Finished (Response 404 Reaction_not_found None), d)
          else (Reaction_checked reactionExists, d))"
| "post_step st sid uid rid (Reaction_checked reactionExists) d =
     (case query [sid, uid] (Inr (select_existing st d sid uid)) of
        Inl e \<Rightarrow> (Finished (Response 500 Server_error None), d)
      | Inr existingReaction \<Rightarrow>
          if existingReaction \<noteq> [] \<and> reaction_id (hd existingReaction) = rid
          then (Finished (Response 400 Already_reacted None), d)
          else (Existing_read reactionExists existingReaction, d))"
| "post_step st sid uid rid (Existing_read reactionExists existingReaction) d =
     (if existingReaction \<noteq> []
      then (case query [sid, uid] (Inr (snd (delete_existing st sid uid d))) of
              Inl e \<Rightarrow> (Finished (Response 500 Server_error None), d)
            | Inr d1 \<Rightarrow> (Existing_deleted reactionExists existingReaction, d1))
      else insert_step st sid uid rid reactionExists existingReaction d)"
| "post_step st sid uid rid (Existing_deleted reactionExists existingReaction) d =
     insert_step st sid uid rid reactionExists existingReaction d"
| "post_step st sid uid rid (Finished r) d = (Finished r, d)"

text \<open>One request alone: \<open>n\<close> statements in a row, and the stores they leave behind.\<close>

fun post_run :: "subject_type \<Rightarrow> int \<Rightarrow> int \<Rightarrow> int \<Rightarrow> nat \<Rightarrow> position \<Rightarrow> db \<Rightarrow> position \<times> db" where
  "post_run st sid uid rid 0 p d = (p, d)"
| "post_run st sid uid rid (Suc n) p d =
     (let c = post_step st sid uid rid p d in post_run st sid uid rid n (fst c) (snd c))"

fun post_trace :: "subject_type \<Rightarrow> int \<Rightarrow> int \<Rightarrow> int \<Rightarrow> nat \<Rightarrow> position \<Rightarrow> db \<Rightarrow> db list" where
  "post_trace st sid uid rid 0 p d = []"
| "post_trace st sid uid rid (Suc n) (Finished r) d = []"
| "post_trace st sid uid rid (Suc n) p d =
     (let c = post_step st sid uid rid p d
      in snd c # post_trace st sid uid rid n (fst c) (snd c))"

text \<open>
  Two requests of one user on one subject, for the kinds \<open>k1\<close> and \<open>k2\<close>, in flight
  together: the schedule says whose statement reaches the store next (\<open>True\<close> for the
  first request).
\<close>

fun interleave ::
  "subject_type \<Rightarrow> int \<Rightarrow> int \<Rightarrow> int \<Rightarrow> int \<Rightarrow> bool list \<Rightarrow> position \<Rightarrow> position \<Rightarrow> db
     \<Rightarrow> position \<times> position \<times> db" where
  "interleave st sid uid k1 k2 [] p1 p2 d = (p1, p2, d)"
| "interleave st sid uid k1 k2 (first # schedule) p1 p2 d =
     (if first
      then (let c = post_step st sid uid k1 p1 d
            in interleave st sid uid k1 k2 schedule (fst c) p2 (snd c))
      else (let c = post_step st sid uid k2 p2 d
            in interleave st sid uid k1 k2 schedule p1 (fst c) (snd c)))"

section \<open>The aggregation queries\<close>

subsection \<open>reactionsQuery of routes/articles.js and routes/comments.js\<close>

text \<open>
  \<^verbatim>\<open>SELECT r.id, r.emoji, r.name, COUNT(ar.id) as count,
         MAX(CASE WHEN ar.user_id = $1 THEN 1 ELSE 0 END) as user_reacted
  FROM reactions r
  LEFT JOIN article_reactions ar ON r.id = ar.reaction_id AND ar.article_id = $2
  GROUP BY r.id, r.emoji, r.name ORDER BY r.id\<close>
  and, when \<open>req.user\<close> is not set, the same with \<open>0 as user_reacted\<close>. The comment routes
  send it on \<open>comment_reactions\<close>. The query is modelled clause by clause: the left join
  keeps a catalog row without a match once, with a NULL reaction row; a group is made of
  the joined rows with the same catalog row; \<open>COUNT(ar.id)\<close> counts the rows of the group
  whose reaction row is not NULL; the groups come ordered by the kind's id. The route then
  maps \<open>user_reacted\<close> through \<open>Boolean(parseInt(...))\<close>.
\<close>

type_synonym joined_row = "reaction_kind \<times> reaction_row option"

definition join_reactions :: "subject_type \<Rightarrow> db \<Rightarrow> int \<Rightarrow> reaction_kind \<Rightarrow> joined_row list" where
  "join_reactions st d sid r =
     (let matches = filter (\<lambda>ar. kind_id r = reaction_id ar \<and> subject_id ar = sid)
                      (assignments st d)
      in if matches = [] then [(r, None)] else map (\<lambda>ar. (r, Some ar)) matches)"

definition left_join :: "subject_type \<Rightarrow> db \<Rightarrow> int \<Rightarrow> joined_row list" where
  "left_join st d sid = concat (map (join_reactions st d sid) (reactions d))"

definition group_keys :: "joined_row list \<Rightarrow> reaction_kind list" where
  "group_keys joined = sort_key kind_id (remdups (map fst joined))"

definition group_of :: "reaction_kind \<Rightarrow> joined_row list \<Rightarrow> joined_row list" where
  "group_of r joined = filter (\<lambda>j. fst j = r) joined"

definition count_id :: "joined_row list \<Rightarrow> nat" where
  "count_id g = length (filter (\<lambda>j. snd j \<noteq> None) g)"

definition user_reacted_column :: "int option \<Rightarrow> joined_row list \<Rightarrow> int" where
  "user_reacted_column requester g =
     (case requester of
        None \<Rightarrow> 0
      | Some uid \<Rightarrow>
          Max (set (map (\<lambda>j. case snd j of
                               None \<Rightarrow> 0
                             | Some ar \<Rightarrow> if user_id ar = uid then 1 else 0) g)))"

record reaction_summary =
  s_id :: int
  s_emoji :: string
  s_name :: string
  s_count :: nat
  s_user_reacted :: bool

definition reactionsQuery :: "subject_type \<Rightarrow> db \<Rightarrow> int option \<Rightarrow> int \<Rightarrow> reaction_summary list" where
  "reactionsQuery st d requester sid =
     (let joined = left_join st d sid
      in map (\<lambda>r. \<lparr>s_id = kind_id r, s_emoji = emoji r, s_name = kind_name r,
                    s_count = count_id (group_of r joined),
                    s_user_reacted = (user_reacted_column requester (group_of r joined) \<noteq> 0)\<rparr>)
           (group_keys joined))"

subsection \<open>GET /article/:articleId and GET /comment/:commentId of the reaction routes\<close>

text \<open>
  \<^verbatim>\<open>SELECT r.id, r.emoji, r.name, COUNT(ar.id) as count,
         ARRAY_AGG(DISTINCT u.username) FILTER (WHERE u.username IS NOT NULL) as users
  FROM reactions r
  LEFT JOIN article_reactions ar ON r.id = ar.reaction_id AND ar.article_id = $1
  LEFT JOIN users u ON ar.user_id = u.id
  GROUP BY r.id, r.emoji, r.name ORDER BY r.id\<close>
  after the check that the subject exists. These routes take no identity and return no
  flag. The array of distinct user names, whose order the query leaves open, is the set
  of its elements; \<open>r.users || []\<close> makes the NULL of an empty aggregate the empty array.
\<close>

type_synonym joined_user_row = "reaction_kind \<times> reaction_row option \<times> (int \<times> string) option"

definition join_users :: "db \<Rightarrow> joined_row \<Rightarrow> joined_user_row list" where
  "join_users d j =
     (case snd j of
        None \<Rightarrow> [(fst j, None, None)]
      | Some ar \<Rightarrow>
          (let matches = filter (\<lambda>u. user_id ar = fst u) (users d)
           in if matches = [] then [(fst j, Some ar, None)]
              else map (\<lambda>u. (fst j, Some ar, Some u)) matches))"

definition left_join_users :: "subject_type \<Rightarrow> db \<Rightarrow> int \<Rightarrow> joined_user_row list" where
  "left_join_users st d sid = concat (map (join_users d) (left_join st d sid))"

record reaction_users =
  u_id :: int
  u_emoji :: string
  u_name :: string
  u_count :: nat
  u_users :: "string set"

definition get_reactions :: "subject_type \<Rightarrow> db \<Rightarrow> int \<Rightarrow> response + reaction_users list" where
  "get_reactions st d sid =
     (case query [sid] (Inr (select_subject st d sid)) of
        Inl e \<Rightarrow> Inl (Response 500 Server_error None)
      | Inr articleExists \<Rightarrow>
          if articleExists = [] then Inl (Response 404 (Subject_not_found st) None)
          else
            let joined = left_join_users st d sid
            in Inr (map (\<lambda>r. let g = filter (\<lambda>j. fst j = r) joined
                             in \<lparr>u_id = kind_id r, u_emoji = emoji r, u_name = kind_name r,
                                 u_count = length (filter (\<lambda>j. fst (snd j) \<noteq> None) g),
                                 u_users = set (map snd (List.map_filter (\<lambda>j. snd (snd j)) g))\<rparr>)
                      (sort_key kind_id (remdups (map fst joined)))))"
section \<open>Basic facts about the statements\<close>

lemma subjects_int4: "sid \<in> set (subjects st d) \<Longrightarrow> int4 sid"
  by (simp add: subjects_def)

lemma users_int4: "uid \<in> set (map fst (users d)) \<Longrightarrow> int4 uid"
  by (auto simp: users_def)

lemma reactions_int4: "rid \<in> set (map kind_id (reactions d)) \<Longrightarrow> int4 rid"
  by (auto simp: reactions_def)

lemma assignments_int4: "filter row_int4 (assignments st d) = assignments st d"
  by (simp add: assignments_def)

lemma owned_int4: "r \<in> set (assignments st d) \<Longrightarrow> owned sid uid r \<Longrightarrow> int4 sid \<and> int4 uid"
  by (auto simp: assignments_def row_int4_def owned_def)

lemma query_in_range: "list_all int4 params \<Longrightarrow> query params statement = statement"
  by (simp add: query_def)

lemma query_out_of_range: "\<not> list_all int4 params \<Longrightarrow> query params statement = Inl Out_of_range"
  by (simp add: query_def)

lemma assignments_set_assignments:
  "assignments st' (set_assignments st rows d) =
     (if st' = st then filter row_int4 rows else assignments st' d)"
  by (cases st; cases st'; simp add: assignments_def set_assignments_def)

lemma subjects_set_assignments: "subjects st' (set_assignments st rows d) = subjects st' d"
  by (cases st; cases st'; simp add: subjects_def set_assignments_def)

lemma users_set_assignments: "users (set_assignments st rows d) = users d"
  by (cases st; simp add: set_assignments_def users_def)

lemma reactions_set_assignments: "reactions (set_assignments st rows d) = reactions d"
  by (cases st; simp add: set_assignments_def reactions_def)

lemma select_existing_set_assignments:
  "select_existing st' (set_assignments st rows d) sid uid =
     (if st' = st then filter (owned sid uid) (filter row_int4 rows)
      else select_existing st' d sid uid)"
  by (simp add: select_existing_def assignments_set_assignments)

lemma select_existing_out_of_range:
  "\<not> list_all int4 [sid, uid] \<Longrightarrow> select_existing st d sid uid = []"
  using owned_int4 [of _ st d sid uid]
  by (auto simp: select_existing_def filter_empty_conv)

lemma select_existing_deleted:
  "select_existing st (snd (delete_existing st sid uid d)) sid uid = []"
  by (simp add: delete_existing_def select_existing_set_assignments filter_empty_conv)

lemma select_subject_empty: "(select_subject st d sid = []) = (sid \<notin> set (subjects st d))"
  by (auto simp: select_subject_def filter_empty_conv)

lemma select_reaction_empty:
  "(select_reaction d rid = []) = (rid \<notin> set (map kind_id (reactions d)))"
  by (auto simp: select_reaction_def filter_empty_conv)

lemma new_row_absent:
  "filter (owned sid uid) rows = [] \<Longrightarrow>
     \<lparr>subject_id = sid, user_id = uid, reaction_id = rid\<rparr> \<notin> set rows"
  by (auto simp: filter_empty_conv owned_def)

lemma insert_reaction_fresh:
  assumes "sid \<in> set (subjects st d)" "uid \<in> set (map fst (users d))"
    "rid \<in> set (map kind_id (reactions d))" "select_existing st d sid uid = []"
  shows "insert_reaction st sid uid rid d =
           Inr (set_assignments st
                  (assignments st d @ [\<lparr>subject_id = sid, user_id = uid, reaction_id = rid\<rparr>]) d)"
  using assms new_row_absent [of sid uid "assignments st d" rid]
  by (simp add: insert_reaction_def select_existing_def)

lemma insert_reaction_Inr:
  "insert_reaction st sid uid rid d = Inr d' \<Longrightarrow>
     d' = set_assignments st
            (assignments st d @ [\<lparr>subject_id = sid, user_id = uid, reaction_id = rid\<rparr>]) d
     \<and> sid \<in> set (subjects st d) \<and> uid \<in> set (map fst (users d))
     \<and> rid \<in> set (map kind_id (reactions d))"
  by (simp add: insert_reaction_def Let_def split: if_splits)

lemma delete_existing_frame:
  "subjects st' (snd (delete_existing st sid uid d)) = subjects st' d"
  "users (snd (delete_existing st sid uid d)) = users d"
  "reactions (snd (delete_existing st sid uid d)) = reactions d"
  by (simp_all add: delete_existing_def subjects_set_assignments users_set_assignments
        reactions_set_assignments)

lemma filter_int4_not_owned:
  "filter row_int4 (filter (\<lambda>r. \<not> owned sid uid r) (assignments st d)) =
     filter (\<lambda>r. \<not> owned sid uid r) (assignments st d)"
  by (rule filter_True) (auto simp: assignments_def)

lemma assignments_deleted:
  "assignments st (snd (delete_existing st sid uid d)) =
     filter (\<lambda>r. \<not> owned sid uid r) (assignments st d)"
  by (simp add: delete_existing_def assignments_set_assignments filter_int4_not_owned
        del: filter_filter)

lemma assignments_other_deleted:
  "st' \<noteq> st \<Longrightarrow> assignments st' (snd (delete_existing st sid uid d)) = assignments st' d"
  by (simp add: delete_existing_def assignments_set_assignments)

lemma set_assignments_twice:
  "set_assignments st rows (set_assignments st rows' d) = set_assignments st rows d"
  by (cases st; simp add: set_assignments_def)

lemma new_row_int4:
  "int4 sid \<Longrightarrow> int4 uid \<Longrightarrow> int4 rid \<Longrightarrow>
     row_int4 \<lparr>subject_id = sid, user_id = uid, reaction_id = rid\<rparr>"
  by (simp add: row_int4_def)

lemma post_reaction_eq:
  assumes "sid \<in> set (subjects st d)" and "rid \<in> set (map kind_id (reactions d))"
    and "uid \<in> set (map fst (users d))"
  shows "post_reaction st sid uid rid d =
     (case select_existing st d sid uid of
        [] \<Rightarrow> (Response 201 Reaction_added
                 (Some (reaction_json sid uid rid (hd (select_reaction d rid)))),
               set_assignments st
                 (assignments st d @ [\<lparr>subject_id = sid, user_id = uid, reaction_id = rid\<rparr>]) d)
      | r # rs \<Rightarrow>
          if reaction_id r = rid then (Response 400 Already_reacted None, d)
          else (Response 201 Reaction_changed
                  (Some (reaction_json sid uid rid (hd (select_reaction d rid)))),
                set_assignments st
                  (filter (\<lambda>r. \<not> owned sid uid r) (assignments st d)
                     @ [\<lparr>subject_id = sid, user_id = uid, reaction_id = rid\<rparr>]) d))"
proof -
  let ?new = "\<lparr>subject_id = sid, user_id = uid, reaction_id = rid\<rparr>"
  have sub: "select_subject st d sid \<noteq> []" and kind: "select_reaction d rid \<noteq> []"
    using assms by (simp_all add: select_subject_empty select_reaction_empty)
  have range: "int4 sid" "int4 rid" "int4 uid"
    using assms by (simp_all add: subjects_int4 reactions_int4 users_int4)
  have q: "\<And>x :: db_error + reaction_row list. query [sid, uid] x = x"
    "\<And>x :: db_error + db. query [sid, uid] x = x"
    "\<And>x :: db_error + db. query [sid, uid, rid] x = x"
    "\<And>x :: db_error + int list. query [sid] x = x"
    "\<And>x :: db_error + reaction_kind list. query [rid] x = x"
    using range by (simp_all add: query_def)
  show ?thesis
  proof (cases "select_existing st d sid uid")
    case Nil
    then show ?thesis
      using sub kind insert_reaction_fresh [OF assms(1) assms(3) assms(2) Nil]
      by (simp add: post_reaction_def q)
  next
    case (Cons r rs)
    let ?d1 = "snd (delete_existing st sid uid d)"
    have "insert_reaction st sid uid rid ?d1 =
            Inr (set_assignments st (assignments st ?d1 @ [?new]) ?d1)"
      using assms
      by (intro insert_reaction_fresh)
         (simp_all add: delete_existing_frame select_existing_deleted)
    then show ?thesis
      using sub kind Cons
      by (simp add: post_reaction_def q assignments_deleted)
         (simp add: delete_existing_def set_assignments_twice)
  qed
qed

lemma select_existing_appended:
  assumes "int4 sid" "int4 uid" "int4 rid"
  shows "select_existing st
     (set_assignments st
        (assignments st d' @ [\<lparr>subject_id = sid, user_id = uid, reaction_id = rid\<rparr>]) d) sid uid =
   filter (owned sid uid) (assignments st d')
     @ [\<lparr>subject_id = sid, user_id = uid, reaction_id = rid\<rparr>]"
  using assms
  by (simp add: select_existing_set_assignments assignments_int4 new_row_int4
        del: filter_filter)
     (simp add: owned_def)

lemma select_existing_replaced:
  assumes "int4 sid" "int4 uid" "int4 rid"
  shows "select_existing st
     (set_assignments st
        (filter (\<lambda>r. \<not> owned sid uid r) (assignments st d')
           @ [\<lparr>subject_id = sid, user_id = uid, reaction_id = rid\<rparr>]) d) sid uid =
   [\<lparr>subject_id = sid, user_id = uid, reaction_id = rid\<rparr>]"
  using assms
  by (simp add: select_existing_set_assignments filter_int4_not_owned new_row_int4
        filter_empty_conv del: filter_filter)
     (simp add: owned_def)

lemma post_reaction_success:
  assumes "status (fst (post_reaction st sid uid rid d)) = 201"
  shows "sid \<in> set (subjects st d)" and "rid \<in> set (map kind_id (reactions d))"
    and "uid \<in> set (map fst (users d))"
proof -
  show "sid \<in> set (subjects st d)"
    using assms
    by (auto simp: post_reaction_def query_def select_subject_empty
          split: if_splits sum.splits)
  show "rid \<in> set (map kind_id (reactions d))"
    using assms
    by (auto simp: post_reaction_def query_def select_reaction_empty
          split: if_splits sum.splits)
  show "uid \<in> set (map fst (users d))"
    using assms
    by (auto simp: post_reaction_def query_def delete_existing_frame
          dest!: insert_reaction_Inr split: if_splits sum.splits)
qed

lemma post_reaction_lookup:
  assumes "status (fst (post_reaction st sid uid rid d)) = 201"
  shows "select_existing st (snd (post_reaction st sid uid rid d)) sid uid =
           [\<lparr>subject_id = sid, user_id = uid, reaction_id = rid\<rparr>]"
proof -
  note ex = post_reaction_success [OF assms]
  note eq = post_reaction_eq [OF ex]
  have range: "int4 sid" "int4 uid" "int4 rid"
    using ex by (simp_all add: subjects_int4 reactions_int4 users_int4)
  show ?thesis
  proof (cases "select_existing st d sid uid")
    case Nil
    then show ?thesis
      unfolding eq by (simp add: select_existing_appended [OF range])
                      (simp add: select_existing_def)
  next
    case (Cons r rs)
    then show ?thesis
      using assms unfolding eq
      by (simp add: select_existing_replaced [OF range] split: if_splits)
  qed
qed

text \<open>
  With ids in the store's integer range, a POST request for a missing subject or for a
  kind outside the catalog is answered 404 (the subject's message first) and the store is
  left as it was.
\<close>

lemma assign_not_found_in_range:
  assumes "int4 sid" and "sid \<in> set (subjects st d) \<Longrightarrow> int4 rid"
    and "sid \<notin> set (subjects st d) \<or> rid \<notin> set (map kind_id (reactions d))"
  shows "post_reaction st sid uid rid d =
           (Response 404 (if sid \<notin> set (subjects st d) then Subject_not_found st
                          else Reaction_not_found) None, d)"
  using assms
  by (auto simp: post_reaction_def query_def select_subject_empty select_reaction_empty)

lemma db0_facts:
  "subjects Article db0 = [1]" "subjects Comment db0 = [1]"
  "map fst (users db0) = [1, 2, 3]" "map kind_id (reactions db0) = [1, 2, 3, 4, 5]"
  "assignments Article db0 = []" "assignments Comment db0 = []"
  by (simp_all add: db0_def subjects_def assignments_def users_def reactions_def int4_def)

lemma db1_facts:
  "subjects Article db1 = [1]" "subjects Comment db1 = [1]"
  "map fst (users db1) = [1, 2, 3]" "map kind_id (reactions db1) = [1, 2, 3, 4, 5]"
  "assignments Article db1 = [\<lparr>subject_id = 1, user_id = 1, reaction_id = 1\<rparr>]"
  "assignments Comment db1 = []"
  by (simp_all add: db1_def db0_def subjects_def assignments_def users_def reactions_def
        int4_def row_int4_def)

lemma db3_facts:
  "subjects Article db3 = [1]" "subjects Comment db3 = [1]"
  "map fst (users db3) = [1, 2, 3]" "map kind_id (reactions db3) = [1, 2, 3, 4, 5]"
  "assignments Article db3 = [\<lparr>subject_id = 1, user_id = 1, reaction_id = 1\<rparr>,
                               \<lparr>subject_id = 1, user_id = 2, reaction_id = 2\<rparr>,
                               \<lparr>subject_id = 1, user_id = 3, reaction_id = 3\<rparr>]"
  "assignments Comment db3 = []"
  by (simp_all add: db3_def db0_def subjects_def assignments_def users_def reactions_def
        int4_def row_int4_def)

lemma db2_facts:
  "subjects Article db2 = [1]" "subjects Comment db2 = [1]"
  "map fst (users db2) = [1, 2, 3]" "map kind_id (reactions db2) = [1, 2, 3, 4, 5]"
  "assignments Article db2 = [\<lparr>subject_id = 1, user_id = 1, reaction_id = 1\<rparr>,
                               \<lparr>subject_id = 1, user_id = 1, reaction_id = 2\<rparr>]"
  "assignments Comment db2 = []"
  by (simp_all add: db2_def db0_def subjects_def assignments_def users_def reactions_def
        int4_def row_int4_def)

lemma delete_reaction_eq:
  "delete_reaction st sid uid d =
     (if sid \<in> set (subjects st d)
      then (if int4 uid
            then (if select_existing st d sid uid = []
                  then (Response 404 Reaction_not_found None,
                        snd (delete_existing st sid uid d))
                  else (Response 200 Reaction_removed None,
                        snd (delete_existing st sid uid d)))
            else (Response 500 Server_error None, d))
      else if int4 sid then (Response 404 (Subject_not_found st) None, d)
      else (Response 500 Server_error None, d))"
  using subjects_int4 [of sid st d]
  by (auto simp: delete_reaction_def query_def select_subject_empty)
     (simp_all add: delete_existing_def select_existing_def)

lemma single_assignment_tables:
  "single_assignment d = (distinct (map key (assignments Article d))
                          \<and> distinct (map key (assignments Comment d)))"
  by (simp add: single_assignment_def)

lemma single_assignment_set:
  "single_assignment d \<Longrightarrow> distinct (map key rows) \<Longrightarrow>
     single_assignment (set_assignments st rows d)"
  by (cases st)
     (simp_all add: single_assignment_tables assignments_set_assignments distinct_map_filter)

lemma single_assignment_table: "single_assignment d \<Longrightarrow> distinct (map key (assignments st d))"
  by (cases st) (simp_all add: single_assignment_tables)

lemma key_none_owned:
  "filter (owned sid uid) rows = [] \<Longrightarrow> (sid, uid) \<notin> key ` set rows"
  by (auto simp: key_def owned_def filter_empty_conv)

lemma delete_existing_single:
  "single_assignment d \<Longrightarrow> single_assignment (snd (delete_existing st sid uid d))"
  by (simp add: delete_existing_def single_assignment_set single_assignment_table
        distinct_map_filter)

lemma insert_reaction_single:
  assumes "single_assignment d" and "select_existing st d sid uid = []"
    and "insert_reaction st sid uid rid d = Inr d'"
  shows "single_assignment d'"
proof -
  have "(sid, uid) \<notin> key ` set (assignments st d)"
    using assms(2) by (simp add: select_existing_def key_none_owned)
  then have "distinct (map key (assignments st d
               @ [\<lparr>subject_id = sid, user_id = uid, reaction_id = rid\<rparr>]))"
    using single_assignment_table [OF assms(1), of st] by (simp add: key_def)
  then show ?thesis
    using insert_reaction_Inr [OF assms(3), THEN conjunct1] assms(1)
    by (simp add: single_assignment_set)
qed

lemma post_reaction_single:
  assumes "single_assignment d"
  shows "single_assignment (snd (post_reaction st sid uid rid d))"
proof (cases "select_existing st d sid uid = []")
  case True
  then show ?thesis
    using assms insert_reaction_single [OF assms True]
    by (auto simp: post_reaction_def query_def split: sum.splits if_splits)
next
  case False
  let ?d1 = "snd (delete_existing st sid uid d)"
  have d1: "single_assignment ?d1" by (rule delete_existing_single [OF assms])
  have "select_existing st ?d1 sid uid = []" by (rule select_existing_deleted)
  from insert_reaction_single [OF d1 this] d1 assms False
  show ?thesis
    by (auto simp: post_reaction_def query_def split: sum.splits if_splits)
qed

lemma delete_reaction_single:
  "single_assignment d \<Longrightarrow> single_assignment (snd (delete_reaction st sid uid d))"
  by (simp add: delete_reaction_eq delete_existing_single)

lemma apply_operation_single:
  "single_assignment d \<Longrightarrow> single_assignment (apply_operation operation d)"
  by (cases operation) (simp_all add: post_reaction_single delete_reaction_single)

lemma run_operations_single:
  "single_assignment d \<Longrightarrow> single_assignment (run_operations ops d)"
  unfolding run_operations_def
  by (induction ops arbitrary: d) (simp_all add: apply_operation_single)

lemma distinct_keys_length:
  "distinct (map key rows) \<Longrightarrow> length (filter (owned sid uid) rows) \<le> 1"
proof (induction rows)
  case Nil
  then show ?case by simp
next
  case (Cons r rows)
  show ?case
  proof (cases "owned sid uid r")
    case True
    then have "key r = (sid, uid)" by (simp add: key_def owned_def)
    then have "(sid, uid) \<notin> key ` set rows" using Cons.prems by auto
    then have "filter (owned sid uid) rows = []"
      by (auto simp: filter_empty_conv key_def owned_def image_iff)
    then show ?thesis using True by simp
  next
    case False
    then show ?thesis using Cons by simp
  qed
qed

lemma length_distinct_keys:
  "(\<And>sid uid. length (filter (owned sid uid) rows) \<le> 1) \<Longrightarrow> distinct (map key rows)"
proof (induction rows)
  case Nil
  then show ?case by simp
next
  case (Cons r rows)
  have tail: "distinct (map key rows)"
  proof (rule Cons.IH)
    fix sid uid
    show "length (filter (owned sid uid) rows) \<le> 1"
      using Cons.prems [of sid uid] by (simp split: if_splits)
  qed
  have "key r \<notin> key ` set rows"
  proof
    assume "key r \<in> key ` set rows"
    then obtain r' where r': "r' \<in> set rows" "key r' = key r" by auto
    then have "owned (subject_id r) (user_id r) r'" by (simp add: key_def owned_def)
    then have "filter (owned (subject_id r) (user_id r)) rows \<noteq> []"
      using r'(1) by (auto simp: filter_empty_conv)
    then have "length (filter (owned (subject_id r) (user_id r)) rows) \<ge> 1"
      by (cases "filter (owned (subject_id r) (user_id r)) rows") simp_all
    moreover have "owned (subject_id r) (user_id r) r" by (simp add: owned_def)
    ultimately show False
      using Cons.prems [of "subject_id r" "user_id r"] by simp
  qed
  then show ?case using tail by simp
qed

lemma single_assignment_iff:
  "single_assignment d = (\<forall>st sid uid. length (select_existing st d sid uid) \<le> 1)"
proof
  assume s: "single_assignment d"
  show "\<forall>st sid uid. length (select_existing st d sid uid) \<le> 1"
  proof (intro allI)
    fix st sid uid
    show "length (select_existing st d sid uid) \<le> 1"
      unfolding select_existing_def
      by (rule distinct_keys_length [OF single_assignment_table [OF s]])
  qed
next
  assume a: "\<forall>st sid uid. length (select_existing st d sid uid) \<le> 1"
  show "single_assignment d"
    unfolding single_assignment_tables
    using a by (auto simp: select_existing_def intro: length_distinct_keys)
qed

lemmas store_eval = post_reaction_def delete_reaction_def insert_step_def query_def int4_def
  row_int4_def select_subject_def select_reaction_def select_existing_def delete_existing_def
  insert_reaction_def owned_def subjects_def users_def reactions_def assignments_def
  set_assignments_def reaction_json_def Let_def

lemma sample_run:
  "article_reactions
     (run_operations [Assign Article 1 1 2, Assign Article 1 2 2, Remove Article 1 2,
                      Assign Article 1 1 2, Assign Comment 1 1 3] db1) =
     [\<lparr>subject_id = 1, user_id = 1, reaction_id = 2\<rparr>]"
  by (simp add: run_operations_def store_eval db1_def db0_def)

text \<open>
  Run alone, the statements of a request give the answer and the store of \<open>post_reaction\<close>,
  after at most five of them.
\<close>

lemma post_run_sequential:
  "post_run st sid uid rid 5 Start d =
     (Finished (fst (post_reaction st sid uid rid d)), snd (post_reaction st sid uid rid d))"
  by (simp add: eval_nat_numeral post_reaction_def insert_step_def Let_def
        split: sum.splits)

lemma post_trace_replace:
  assumes "sid \<in> set (subjects st d)" and "rid \<in> set (map kind_id (reactions d))"
    and "select_existing st d sid uid \<noteq> []"
    and "reaction_id (hd (select_existing st d sid uid)) \<noteq> rid"
  shows "post_trace st sid uid rid 5 Start d =
           [d, d, d, snd (delete_existing st sid uid d), snd (post_reaction st sid uid rid d)]"
proof -
  have "int4 sid" "int4 rid" using assms by (simp_all add: subjects_int4 reactions_int4)
  moreover have "int4 uid"
    using assms(3) select_existing_out_of_range [of sid uid st d] by auto
  ultimately show ?thesis
    using assms
    by (simp add: eval_nat_numeral post_reaction_def insert_step_def query_def
          select_subject_empty select_reaction_empty split: sum.splits)
qed

text \<open>The aggregation query, clause by clause.\<close>

lemma remdups_replicate_append:
  "r \<notin> set xs \<Longrightarrow> remdups (replicate (Suc n) r @ xs) = r # remdups xs"
  by (induction n) simp_all

lemma fst_join_reactions:
  "map fst (join_reactions st d sid r) =
     replicate (length (join_reactions st d sid r)) r"
  by (simp add: join_reactions_def Let_def map_replicate_const comp_def)

lemma join_reactions_nonempty: "join_reactions st d sid r \<noteq> []"
  by (simp add: join_reactions_def Let_def)

lemma set_fst_joined:
  "fst ` set (concat (map (join_reactions st d sid) cat)) = set cat"
proof -
  have "\<And>r. fst ` set (join_reactions st d sid r) = {r}"
    using join_reactions_nonempty fst_join_reactions
    by (metis length_0_conv list.set_map set_replicate)
  then show ?thesis by (auto simp: image_UN)
qed

lemma remdups_joined:
  "distinct cat \<Longrightarrow> remdups (map fst (concat (map (join_reactions st d sid) cat))) = cat"
proof (induction cat)
  case Nil
  then show ?case by simp
next
  case (Cons r cat)
  obtain n where n: "length (join_reactions st d sid r) = Suc n"
    using join_reactions_nonempty [of st d sid r]
    by (cases "join_reactions st d sid r") auto
  have "r \<notin> set (map fst (concat (map (join_reactions st d sid) cat)))"
    using Cons.prems set_fst_joined [of st d sid cat] by simp
  then show ?case
    using Cons n
    by (simp add: fst_join_reactions remdups_replicate_append del: replicate_Suc)
qed

lemma group_of_joined:
  "distinct cat \<Longrightarrow> r \<in> set cat \<Longrightarrow>
     group_of r (concat (map (join_reactions st d sid) cat)) = join_reactions st d sid r"
proof (induction cat)
  case Nil
  then show ?case by simp
next
  case (Cons c cat)
  have own: "\<And>x. filter (\<lambda>j. fst j = x) (join_reactions st d sid x) = join_reactions st d sid x"
    by (simp add: join_reactions_def Let_def)
  have other: "\<And>x y. x \<noteq> y \<Longrightarrow> filter (\<lambda>j. fst j = x) (join_reactions st d sid y) = []"
    by (simp add: join_reactions_def Let_def)
  have none: "\<And>x xs. x \<notin> set xs \<Longrightarrow>
      filter (\<lambda>j. fst j = x) (concat (map (join_reactions st d sid) xs)) = []"
    using set_fst_joined [of st d sid] by (auto simp: filter_empty_conv simp del: set_concat)
  show ?case
  proof (cases "r = c")
    case True
    then show ?thesis
      using Cons.prems own none [of c cat] by (simp add: group_of_def)
  next
    case False
    then show ?thesis
      using Cons other [of r c] by (simp add: group_of_def)
  qed
qed

lemma count_id_join:
  "count_id (join_reactions st d sid r) =
     length (filter (\<lambda>ar. subject_id ar = sid \<and> reaction_id ar = kind_id r) (assignments st d))"
proof -
  have eq: "filter (\<lambda>ar. subject_id ar = sid \<and> reaction_id ar = kind_id r) (assignments st d) =
            filter (\<lambda>ar. kind_id r = reaction_id ar \<and> subject_id ar = sid) (assignments st d)"
    by (rule filter_cong) auto
  show ?thesis
    unfolding eq by (simp add: count_id_def join_reactions_def Let_def comp_def)
qed

lemma join_reactions_Some:
  "(r', Some ar) \<in> set (join_reactions st d sid r) \<Longrightarrow>
     ar \<in> set (assignments st d) \<and> kind_id r = reaction_id ar \<and> subject_id ar = sid"
  by (auto simp: join_reactions_def Let_def split: if_splits)

lemma join_reactions_member:
  assumes "ar \<in> set (assignments st d)" and "kind_id r = reaction_id ar"
    and "subject_id ar = sid"
  shows "(r, Some ar) \<in> set (join_reactions st d sid r)"
proof -
  let ?matches = "filter (\<lambda>ar. kind_id r = reaction_id ar \<and> subject_id ar = sid)
                    (assignments st d)"
  have m: "ar \<in> set ?matches" using assms by simp
  then have "?matches \<noteq> []" by (metis empty_iff list.set(1))
  then have "join_reactions st d sid r = map (\<lambda>ar. (r, Some ar)) ?matches"
    by (simp add: join_reactions_def Let_def)
  then show ?thesis using m by (simp add: image_iff)
qed

lemma Max_flags:
  fixes xs :: "int list"
  assumes "xs \<noteq> []" and "set xs \<subseteq> {0, 1}"
  shows "(Max (set xs) \<noteq> 0) = (1 \<in> set xs)"
proof
  assume "Max (set xs) \<noteq> 0"
  moreover have "Max (set xs) \<in> set xs" using assms(1) by (simp add: Max_in)
  ultimately show "1 \<in> set xs" using assms(2) by auto
next
  assume "1 \<in> set xs"
  then have "1 \<le> Max (set xs)" by (simp add: Max_ge)
  then show "Max (set xs) \<noteq> 0" by simp
qed

lemma user_reacted_join:
  "(user_reacted_column (Some uid) (join_reactions st d sid r) \<noteq> 0) =
     (\<lparr>subject_id = sid, user_id = uid, reaction_id = kind_id r\<rparr> \<in> set (assignments st d))"
proof -
  let ?flag = "\<lambda>j :: joined_row. case snd j of None \<Rightarrow> 0 :: int
                 | Some ar \<Rightarrow> if user_id ar = uid then 1 else 0"
  let ?xs = "map ?flag (join_reactions st d sid r)"
  have ne: "?xs \<noteq> []" by (simp add: join_reactions_nonempty)
  have sub: "set ?xs \<subseteq> {0, 1}" by (auto split: option.splits)
  have "(1 \<in> set ?xs) =
        (\<lparr>subject_id = sid, user_id = uid, reaction_id = kind_id r\<rparr> \<in> set (assignments st d))"
  proof
    assume "1 \<in> set ?xs"
    then obtain j where j: "j \<in> set (join_reactions st d sid r)" "?flag j = 1"
      by auto
    then obtain ar where ar: "snd j = Some ar" "user_id ar = uid"
      by (cases "snd j") (auto split: if_splits)
    then have "(fst j, Some ar) \<in> set (join_reactions st d sid r)"
      using j(1) by (metis prod.collapse)
    from join_reactions_Some [OF this] ar(2)
    show "\<lparr>subject_id = sid, user_id = uid, reaction_id = kind_id r\<rparr> \<in> set (assignments st d)"
      by (cases ar) auto
  next
    assume "\<lparr>subject_id = sid, user_id = uid, reaction_id = kind_id r\<rparr> \<in> set (assignments st d)"
    then have "(r, Some \<lparr>subject_id = sid, user_id = uid, reaction_id = kind_id r\<rparr>)
                 \<in> set (join_reactions st d sid r)"
      by (rule join_reactions_member) simp_all
    then have "?flag (r, Some \<lparr>subject_id = sid, user_id = uid, reaction_id = kind_id r\<rparr>)
                 \<in> set ?xs"
      by (simp only: set_map) (rule imageI)
    then show "1 \<in> set ?xs" by simp
  qed
  then show ?thesis
    using Max_flags [OF ne sub] by (simp add: user_reacted_column_def)
qed

lemma reactionsQuery_eq:
  assumes "distinct (map kind_id (reactions d))"
  shows "reactionsQuery st d requester sid =
     map (\<lambda>r. \<lparr>s_id = kind_id r, s_emoji = emoji r, s_name = kind_name r,
                 s_count = length (filter (\<lambda>ar. subject_id ar = sid \<and> reaction_id ar = kind_id r)
                                     (assignments st d)),
                 s_user_reacted =
                   (case requester of
                      None \<Rightarrow> False
                    | Some uid \<Rightarrow> \<lparr>subject_id = sid, user_id = uid, reaction_id = kind_id r\<rparr>
                                    \<in> set (assignments st d))\<rparr>)
         (sort_key kind_id (reactions d))"
proof -
  have dist: "distinct (reactions d)" using assms by (simp add: distinct_map)
  have keys: "group_keys (left_join st d sid) = sort_key kind_id (reactions d)"
    by (simp add: group_keys_def left_join_def remdups_joined [OF dist])
  have grp: "group_of r (left_join st d sid) = join_reactions st d sid r"
    if "r \<in> set (reactions d)" for r
    using that by (simp add: left_join_def group_of_joined [OF dist])
  have flag: "(user_reacted_column requester (join_reactions st d sid r) \<noteq> 0) =
        (case requester of
           None \<Rightarrow> False
         | Some uid \<Rightarrow> \<lparr>subject_id = sid, user_id = uid, reaction_id = kind_id r\<rparr>
                         \<in> set (assignments st d))" for r
    by (cases requester) (simp_all add: user_reacted_join, simp add: user_reacted_column_def)
  show ?thesis
    unfolding reactionsQuery_def Let_def keys
    by (rule map_cong) (simp_all add: grp count_id_join flag)
qed

lemma remdups_replicate_append_any:
  "remdups (replicate (Suc n) r @ xs) = (if r \<in> set xs then remdups xs else r # remdups xs)"
  by (induction n) simp_all

lemma fst_join_users: "map fst (join_users d j) = replicate (length (join_users d j)) (fst j)"
  by (cases "snd j") (simp_all add: join_users_def Let_def map_replicate_const comp_def)

lemma join_users_nonempty: "join_users d j \<noteq> []"
  by (cases "snd j") (simp_all add: join_users_def Let_def)

lemma set_fst_join_users: "fst ` set (join_users d j) = {fst j}"
  using join_users_nonempty [of d j] fst_join_users [of d j]
  by (metis length_0_conv list.set_map set_replicate)

lemma set_fst_joined_users: "fst ` set (concat (map (join_users d) js)) = fst ` set js"
  using set_fst_join_users [of d] by (auto simp: image_UN)

lemma remdups_joined_users:
  "remdups (map fst (concat (map (join_users d) js))) = remdups (map fst js)"
proof (induction js)
  case Nil
  then show ?case by simp
next
  case (Cons j js)
  obtain n where n: "length (join_users d j) = Suc n"
    using join_users_nonempty [of d j] by (cases "join_users d j") auto
  have "(fst j \<in> set (map fst (concat (map (join_users d) js)))) = (fst j \<in> set (map fst js))"
    using set_fst_joined_users [of d js] by simp
  then show ?case
    using Cons n
    by (simp add: fst_join_users remdups_replicate_append_any del: replicate_Suc)
qed

lemma fst_in_join_users: "u \<in> set (join_users d j) \<Longrightarrow> fst u = fst j"
  by (cases "snd j") (auto simp: join_users_def Let_def split: if_splits)

lemma group_joined_users:
  "filter (\<lambda>u. fst u = r) (concat (map (join_users d) js)) =
     concat (map (join_users d) (filter (\<lambda>j. fst j = r) js))"
proof (induction js)
  case Nil
  then show ?case by simp
next
  case (Cons j js)
  have "filter (\<lambda>u. fst u = r) (join_users d j) = (if fst j = r then join_users d j else [])"
    by (auto simp: filter_empty_conv filter_id_conv dest: fst_in_join_users)
  then show ?case using Cons by simp
qed

lemma at_most_one_user:
  "distinct (map fst us) \<Longrightarrow> length (filter (\<lambda>u. x = fst u) us) \<le> 1"
  by (induction us) (auto simp: filter_empty_conv image_iff)

lemma count_join_users:
  assumes "distinct (map fst (users d))"
  shows "length (filter (\<lambda>u. fst (snd u) \<noteq> None) (concat (map (join_users d) g))) =
         length (filter (\<lambda>j. snd j \<noteq> None) g)"
proof (induction g)
  case Nil
  then show ?case by simp
next
  case (Cons j g)
  have "length (filter (\<lambda>u. fst (snd u) \<noteq> None) (join_users d j)) =
        (if snd j \<noteq> None then 1 else 0)"
  proof (cases "snd j")
    case None
    then show ?thesis by (simp add: join_users_def)
  next
    case (Some ar)
    let ?m = "filter (\<lambda>u. user_id ar = fst u) (users d)"
    have "length ?m \<le> 1" using assms by (rule at_most_one_user)
    then have "?m = [] \<or> (\<exists>u. ?m = [u])"
      by (cases ?m) (auto simp: Suc_le_eq)
    then show ?thesis using Some by (auto simp: join_users_def Let_def)
  qed
  then show ?case using Cons by simp
qed

lemma get_reactions_counts:
  assumes "distinct (map kind_id (reactions d))" and "distinct (map fst (users d))"
    and "sid \<in> set (subjects st d)"
  shows "\<exists>rows. get_reactions st d sid = Inr rows
           \<and> map (\<lambda>x. (u_id x, u_emoji x, u_name x, u_count x)) rows =
             map (\<lambda>r. (kind_id r, emoji r, kind_name r,
                        length (filter (\<lambda>ar. subject_id ar = sid \<and> reaction_id ar = kind_id r)
                                  (assignments st d))))
               (sort_key kind_id (reactions d))"
proof -
  have dist: "distinct (reactions d)" using assms(1) by (simp add: distinct_map)
  have keys: "remdups (map fst (left_join_users st d sid)) = reactions d"
    by (simp add: left_join_users_def remdups_joined_users left_join_def remdups_joined [OF dist])
  have cnt: "length (filter (\<lambda>j. fst (snd j) \<noteq> None)
                (filter (\<lambda>j. fst j = r) (left_join_users st d sid))) =
             length (filter (\<lambda>ar. subject_id ar = sid \<and> reaction_id ar = kind_id r)
                       (assignments st d))"
    if "r \<in> set (reactions d)" for r
  proof -
    have "filter (\<lambda>j. fst j = r) (left_join_users st d sid) =
          concat (map (join_users d) (group_of r (left_join st d sid)))"
      by (simp add: left_join_users_def group_joined_users group_of_def)
    also have "group_of r (left_join st d sid) = join_reactions st d sid r"
      using that by (simp add: left_join_def group_of_joined [OF dist])
    finally show ?thesis
      using count_join_users [OF assms(2), of "join_reactions st d sid r"]
        count_id_join [of st d sid r]
      by (simp add: count_id_def)
  qed
  have sub: "select_subject st d sid \<noteq> []"
    using assms(3) by (simp add: select_subject_empty)
  have "int4 sid" using assms(3) by (rule subjects_int4)
  then show ?thesis
    using sub cnt by (simp add: get_reactions_def query_def Let_def keys comp_def)
qed

section \<open>The single-assignment invariant\<close>

text \<open>
  C1. Starting from a store in which every (subject type, subject, user) has at most one
  reaction row, every single operation (an assignment or a removal, on an article or on a
  comment) and every sequential run of such operations ends in a store with the same
  property.
\<close>

theorem operations_preserve_single_assignment:
  assumes "\<forall>st sid uid. length (select_existing st d sid uid) \<le> 1"
  shows "(\<forall>st sid uid. length (select_existing st (apply_operation operation d) sid uid) \<le> 1)
         \<and> (\<forall>st sid uid. length (select_existing st (run_operations ops d) sid uid) \<le> 1)
         \<and> single_assignment (run_operations ops d)"
proof -
  have s: "single_assignment d" using assms by (simp add: single_assignment_iff)
  then have r: "single_assignment (run_operations ops d)" by (rule run_operations_single)
  have "single_assignment (apply_operation operation d)"
    using s by (rule apply_operation_single)
  then have "\<forall>st sid uid. length (select_existing st (apply_operation operation d) sid uid) \<le> 1"
    using single_assignment_iff by blast
  moreover have "\<forall>st sid uid. length (select_existing st (run_operations ops d) sid uid) \<le> 1"
    using r single_assignment_iff by blast
  ultimately show ?thesis using r by blast
qed

theorem operations_preserve_single_assignment_witness:
  "(\<forall>st sid uid. length (select_existing st db1 sid uid) \<le> 1)
   \<and> (\<forall>st sid uid. length (select_existing st
         (run_operations [Assign Article 1 1 2, Assign Article 1 2 2, Remove Article 1 2,
                          Assign Article 1 1 2, Assign Comment 1 1 3] db1) sid uid) \<le> 1)
   \<and> article_reactions
       (run_operations [Assign Article 1 1 2, Assign Article 1 2 2, Remove Article 1 2,
                        Assign Article 1 1 2, Assign Comment 1 1 3] db1) =
       [\<lparr>subject_id = 1, user_id = 1, reaction_id = 2\<rparr>]"
proof -
  have "single_assignment db1"
    by (simp add: single_assignment_def db1_facts key_def)
  then have h: "\<forall>st sid uid. length (select_existing st db1 sid uid) \<le> 1"
    using single_assignment_iff by blast
  show ?thesis
    using h operations_preserve_single_assignment [OF h, THEN conjunct2, THEN conjunct1]
      sample_run
    by (intro conjI)
qed

section \<open>Assigning a reaction\<close>

text \<open>
  C2. For an existing subject, an existing user and a kind of the catalog, the POST
  handler decides on the rows the user already has on the subject, in three cases. With no
  row it answers 201 "added" and the table gains the new row, last (Insert). With a first
  row of the requested kind it answers 400 "already set" and the store is unchanged
  (Rejected, AlreadyAssigned). With a first row of another kind it answers 201 "changed"
  and the table is the old one without the user's rows on the subject, then the new row
  (Replace). Starting without a row, the same request sent twice is answered "added", then
  "already set", and the second request changes nothing.
\<close>

theorem assign_three_way:
  assumes "sid \<in> set (subjects st d)" and "rid \<in> set (map kind_id (reactions d))"
    and "uid \<in> set (map fst (users d))"
  shows "post_reaction st sid uid rid d =
     (case select_existing st d sid uid of
        [] \<Rightarrow> (Response 201 Reaction_added
                 (Some (reaction_json sid uid rid (hd (select_reaction d rid)))),
               set_assignments st
                 (assignments st d @ [\<lparr>subject_id = sid, user_id = uid, reaction_id = rid\<rparr>]) d)
      | r # rs \<Rightarrow>
          if reaction_id r = rid then (Response 400 Already_reacted None, d)
          else (Response 201 Reaction_changed
                  (Some (reaction_json sid uid rid (hd (select_reaction d rid)))),
                set_assignments st
                  (filter (\<lambda>r. \<not> owned sid uid r) (assignments st d)
                     @ [\<lparr>subject_id = sid, user_id = uid, reaction_id = rid\<rparr>]) d))
   \<and> (select_existing st d sid uid = [] \<longrightarrow>
        post_reaction st sid uid rid (snd (post_reaction st sid uid rid d)) =
          (Response 400 Already_reacted None, snd (post_reaction st sid uid rid d)))"
proof (intro conjI impI)
  show "post_reaction st sid uid rid d =
     (case select_existing st d sid uid of
        [] \<Rightarrow> (Response 201 Reaction_added
                 (Some (reaction_json sid uid rid (hd (select_reaction d rid)))),
               set_assignments st
                 (assignments st d @ [\<lparr>subject_id = sid, user_id = uid, reaction_id = rid\<rparr>]) d)
      | r # rs \<Rightarrow>
          if reaction_id r = rid then (Response 400 Already_reacted None, d)
          else (Response 201 Reaction_changed
                  (Some (reaction_json sid uid rid (hd (select_reaction d rid)))),
                set_assignments st
                  (filter (\<lambda>r. \<not> owned sid uid r) (assignments st d)
                     @ [\<lparr>subject_id = sid, user_id = uid, reaction_id = rid\<rparr>]) d))"
    by (rule post_reaction_eq [OF assms])
next
  assume Nil: "select_existing st d sid uid = []"
  let ?new = "\<lparr>subject_id = sid, user_id = uid, reaction_id = rid\<rparr>"
  let ?d' = "set_assignments st (assignments st d @ [?new]) d"
  have d': "snd (post_reaction st sid uid rid d) = ?d'"
    using post_reaction_eq [OF assms] Nil by simp
  have range: "int4 sid" "int4 uid" "int4 rid"
    using assms by (simp_all add: subjects_int4 users_int4 reactions_int4)
  have ex: "select_existing st ?d' sid uid = [?new]"
    using Nil by (simp add: select_existing_appended [OF range]) (simp add: select_existing_def)
  have "sid \<in> set (subjects st ?d')" "rid \<in> set (map kind_id (reactions ?d'))"
    "uid \<in> set (map fst (users ?d'))"
    using assms
    by (simp_all add: subjects_set_assignments reactions_set_assignments users_set_assignments)
  from post_reaction_eq [OF this] ex
  show "post_reaction st sid uid rid (snd (post_reaction st sid uid rid d)) =
          (Response 400 Already_reacted None, snd (post_reaction st sid uid rid d))"
    unfolding d' by simp
qed

theorem assign_three_way_witness:
  "1 \<in> set (subjects Article db0) \<and> 2 \<in> set (map kind_id (reactions db0))
   \<and> 1 \<in> set (map fst (users db0)) \<and> select_existing Article db0 1 1 = []
   \<and> fst (post_reaction Article 1 1 2 db0) =
       Response 201 Reaction_added (Some (reaction_json 1 1 2 (hd (select_reaction db0 2))))
   \<and> article_reactions (snd (post_reaction Article 1 1 2 db0)) =
       [\<lparr>subject_id = 1, user_id = 1, reaction_id = 2\<rparr>]
   \<and> fst (post_reaction Article 1 1 2 (snd (post_reaction Article 1 1 2 db0))) =
       Response 400 Already_reacted None"
proof -
  have a: "1 \<in> set (subjects Article db0)" "2 \<in> set (map kind_id (reactions db0))"
    "1 \<in> set (map fst (users db0))"
    by (simp_all add: db0_facts)
  have e: "select_existing Article db0 1 1 = []"
    by (simp add: select_existing_def db0_facts)
  have n: "assignments Article db0 = []"
    by (simp add: db0_facts)
  note t = assign_three_way [OF a]
  have p: "post_reaction Article 1 1 2 db0 =
      (Response 201 Reaction_added (Some (reaction_json 1 1 2 (hd (select_reaction db0 2)))),
       set_assignments Article [\<lparr>subject_id = 1, user_id = 1, reaction_id = 2\<rparr>] db0)"
    using t [THEN conjunct1] by (simp add: e n)
  have q: "post_reaction Article 1 1 2 (snd (post_reaction Article 1 1 2 db0)) =
      (Response 400 Already_reacted None, snd (post_reaction Article 1 1 2 db0))"
    using t [THEN conjunct2] e by (rule mp)
  show ?thesis
    using a e by (simp add: q) (simp add: p set_assignments_def)
qed

text \<open>
  C3. Whenever the POST handler answers 201 for kind \<open>k\<close>, the lookup of the user's rows
  on the subject in the resulting store returns exactly one row, of kind \<open>k\<close>; this holds
  from every store. Starting without a row, assigning kind \<open>a\<close> and then another kind \<open>b\<close>
  is answered "added", then "changed", and the lookup then returns the single row of
  kind \<open>b\<close>.
\<close>

theorem lookup_after_assign:
  "(status (fst (post_reaction st sid uid k d)) = 201 \<longrightarrow>
      select_existing st (snd (post_reaction st sid uid k d)) sid uid =
        [\<lparr>subject_id = sid, user_id = uid, reaction_id = k\<rparr>])
   \<and> (sid \<in> set (subjects st d) \<and> uid \<in> set (map fst (users d))
        \<and> a \<in> set (map kind_id (reactions d)) \<and> b \<in> set (map kind_id (reactions d))
        \<and> a \<noteq> b \<and> select_existing st d sid uid = [] \<longrightarrow>
      (let r1 = post_reaction st sid uid a d; r2 = post_reaction st sid uid b (snd r1)
       in status (fst r1) = 201 \<and> message (fst r1) = Reaction_added
          \<and> select_existing st (snd r1) sid uid = [\<lparr>subject_id = sid, user_id = uid, reaction_id = a\<rparr>]
          \<and> status (fst r2) = 201 \<and> message (fst r2) = Reaction_changed
          \<and> select_existing st (snd r2) sid uid = [\<lparr>subject_id = sid, user_id = uid, reaction_id = b\<rparr>]))"
proof (intro conjI impI)
  assume "status (fst (post_reaction st sid uid k d)) = 201"
  then show "select_existing st (snd (post_reaction st sid uid k d)) sid uid =
        [\<lparr>subject_id = sid, user_id = uid, reaction_id = k\<rparr>]"
    by (rule post_reaction_lookup)
next
  assume h: "sid \<in> set (subjects st d) \<and> uid \<in> set (map fst (users d))
        \<and> a \<in> set (map kind_id (reactions d)) \<and> b \<in> set (map kind_id (reactions d))
        \<and> a \<noteq> b \<and> select_existing st d sid uid = []"
  define r1 where "r1 = post_reaction st sid uid a d"
  define r2 where "r2 = post_reaction st sid uid b (snd r1)"
  have s1: "status (fst r1) = 201" and m1: "message (fst r1) = Reaction_added"
    using h post_reaction_eq [of sid st d a uid] by (simp_all add: r1_def)
  have l1: "select_existing st (snd r1) sid uid = [\<lparr>subject_id = sid, user_id = uid, reaction_id = a\<rparr>]"
    using s1 unfolding r1_def by (rule post_reaction_lookup)
  have frame: "sid \<in> set (subjects st (snd r1))" "b \<in> set (map kind_id (reactions (snd r1)))"
    "uid \<in> set (map fst (users (snd r1)))"
    using h post_reaction_eq [of sid st d a uid]
    by (simp_all add: r1_def subjects_set_assignments reactions_set_assignments
          users_set_assignments)
  have s2: "status (fst r2) = 201" and m2: "message (fst r2) = Reaction_changed"
    using h l1 post_reaction_eq [OF frame] by (simp_all add: r2_def)
  have l2: "select_existing st (snd r2) sid uid = [\<lparr>subject_id = sid, user_id = uid, reaction_id = b\<rparr>]"
    using s2 unfolding r2_def by (rule post_reaction_lookup)
  show "let r1 = post_reaction st sid uid a d; r2 = post_reaction st sid uid b (snd r1)
       in status (fst r1) = 201 \<and> message (fst r1) = Reaction_added
          \<and> select_existing st (snd r1) sid uid = [\<lparr>subject_id = sid, user_id = uid, reaction_id = a\<rparr>]
          \<and> status (fst r2) = 201 \<and> message (fst r2) = Reaction_changed
          \<and> select_existing st (snd r2) sid uid = [\<lparr>subject_id = sid, user_id = uid, reaction_id = b\<rparr>]"
    using s1 m1 l1 s2 m2 l2 by (simp add: Let_def r1_def r2_def)
qed

theorem lookup_after_assign_witness:
  "status (fst (post_reaction Article 1 1 1 db0)) = 201
   \<and> select_existing Article (snd (post_reaction Article 1 1 1 db0)) 1 1 =
       [\<lparr>subject_id = 1, user_id = 1, reaction_id = 1\<rparr>]
   \<and> message (fst (post_reaction Article 1 1 1 db0)) = Reaction_added
   \<and> message (fst (post_reaction Article 1 1 2 (snd (post_reaction Article 1 1 1 db0)))) =
       Reaction_changed
   \<and> select_existing Article
        (snd (post_reaction Article 1 1 2 (snd (post_reaction Article 1 1 1 db0)))) 1 1 =
       [\<lparr>subject_id = 1, user_id = 1, reaction_id = 2\<rparr>]"
proof -
  have e: "select_existing Article db0 1 1 = []"
    by (simp add: select_existing_def db0_facts)
  have s: "status (fst (post_reaction Article 1 1 1 db0)) = 201"
    using post_reaction_eq [of 1 Article db0 1 1] by (simp add: db0_facts e)
  note t = lookup_after_assign [of Article 1 1 1 db0 1 2]
  have one: "select_existing Article (snd (post_reaction Article 1 1 1 db0)) 1 1 =
       [\<lparr>subject_id = 1, user_id = 1, reaction_id = 1\<rparr>]"
    using t [THEN conjunct1] s by (rule mp)
  have two: "let r1 = post_reaction Article 1 1 1 db0; r2 = post_reaction Article 1 1 2 (snd r1)
       in status (fst r1) = 201 \<and> message (fst r1) = Reaction_added
          \<and> select_existing Article (snd r1) 1 1 = [\<lparr>subject_id = 1, user_id = 1, reaction_id = 1\<rparr>]
          \<and> status (fst r2) = 201 \<and> message (fst r2) = Reaction_changed
          \<and> select_existing Article (snd r2) 1 1 = [\<lparr>subject_id = 1, user_id = 1, reaction_id = 2\<rparr>]"
    by (rule t [THEN conjunct2, THEN mp]) (simp add: db0_facts e)
  show ?thesis
    using s one two by (simp add: Let_def)
qed

section \<open>Removing a reaction\<close>




section \<open>Requests naming a missing subject or kind\<close>

text \<open>
  C6. The claim fails on the code for an id beyond the range. The kind 2147483648 is not
  in the catalog and the validation accepts it as a positive integer; the SELECT on the
  catalog raises on it, and the handler's \<open>catch\<close> answers 500, not 404. The same happens
  for a subject id of 2147483648, which no article has. The store is unchanged. A missing
  kind in range, 9, is answered 404.
\<close>

theorem assign_out_of_range_server_error:
  "2147483648 \<notin> set (map kind_id (reactions db0))
   \<and> validate_reaction (Some 2147483648)
   \<and> route_post Article \<lparr>params_id = 1, body_reaction_id = Some 2147483648, req_user = 1\<rparr> db0 =
       (Response 500 Server_error None, db0)
   \<and> 2147483648 \<notin> set (subjects Article db0)
   \<and> post_reaction Article 2147483648 1 1 db0 = (Response 500 Server_error None, db0)
   \<and> post_reaction Article 1 1 9 db0 = (Response 404 Reaction_not_found None, db0)"
  by (simp add: route_post_def validate_reaction_def store_eval db0_def)

section \<open>Replacing from a store with several rows\<close>

text \<open>
  C10. From every store, also one where the user has several rows on the subject: when
  the POST handler answers 201 for a kind other than the kind of the first row found, the
  table afterwards is the old one without any of the user's rows on the subject (whatever
  their kinds), followed by the one new row; the lookup returns exactly that row.
\<close>

theorem replace_deletes_all:
  assumes "status (fst (post_reaction st sid uid rid d)) = 201"
    and "select_existing st d sid uid \<noteq> []"
    and "reaction_id (hd (select_existing st d sid uid)) \<noteq> rid"
  shows "assignments st (snd (post_reaction st sid uid rid d)) =
           filter (\<lambda>r. \<not> owned sid uid r) (assignments st d)
             @ [\<lparr>subject_id = sid, user_id = uid, reaction_id = rid\<rparr>]
         \<and> select_existing st (snd (post_reaction st sid uid rid d)) sid uid =
             [\<lparr>subject_id = sid, user_id = uid, reaction_id = rid\<rparr>]
         \<and> length (select_existing st (snd (post_reaction st sid uid rid d)) sid uid) = 1
         \<and> message (fst (post_reaction st sid uid rid d)) = Reaction_changed"
proof -
  note ex = post_reaction_success [OF assms(1)]
  obtain r rs where c: "select_existing st d sid uid = r # rs"
    using assms(2) by (cases "select_existing st d sid uid") auto
  have "reaction_id r \<noteq> rid" using assms(3) c by simp
  then have eq: "post_reaction st sid uid rid d =
      (Response 201 Reaction_changed
         (Some (reaction_json sid uid rid (hd (select_reaction d rid)))),
       set_assignments st
         (filter (\<lambda>r. \<not> owned sid uid r) (assignments st d)
            @ [\<lparr>subject_id = sid, user_id = uid, reaction_id = rid\<rparr>]) d)"
    using post_reaction_eq [OF ex] c by simp
  have "row_int4 \<lparr>subject_id = sid, user_id = uid, reaction_id = rid\<rparr>"
    using ex by (simp add: new_row_int4 subjects_int4 users_int4 reactions_int4)
  then have "assignments st (snd (post_reaction st sid uid rid d)) =
           filter (\<lambda>r. \<not> owned sid uid r) (assignments st d)
             @ [\<lparr>subject_id = sid, user_id = uid, reaction_id = rid\<rparr>]"
    by (simp add: eq assignments_set_assignments filter_int4_not_owned del: filter_filter)
  then show ?thesis
    using post_reaction_lookup [OF assms(1)] by (simp add: eq)
qed

theorem replace_deletes_all_witness:
  "status (fst (post_reaction Article 1 1 2 db2)) = 201
   \<and> select_existing Article db2 1 1 =
       [\<lparr>subject_id = 1, user_id = 1, reaction_id = 1\<rparr>,
        \<lparr>subject_id = 1, user_id = 1, reaction_id = 2\<rparr>]
   \<and> assignments Article (snd (post_reaction Article 1 1 2 db2)) =
       [\<lparr>subject_id = 1, user_id = 1, reaction_id = 2\<rparr>]
   \<and> length (select_existing Article (snd (post_reaction Article 1 1 2 db2)) 1 1) = 1"
proof -
  have e: "select_existing Article db2 1 1 =
       [\<lparr>subject_id = 1, user_id = 1, reaction_id = 1\<rparr>,
        \<lparr>subject_id = 1, user_id = 1, reaction_id = 2\<rparr>]"
    by (simp add: select_existing_def db2_facts owned_def)
  have s: "status (fst (post_reaction Article 1 1 2 db2)) = 201"
    using post_reaction_eq [of 1 Article db2 2 1] by (simp add: db2_facts e)
  have "assignments Article (snd (post_reaction Article 1 1 2 db2)) =
           filter (\<lambda>r. \<not> owned 1 1 r) (assignments Article db2)
             @ [\<lparr>subject_id = 1, user_id = 1, reaction_id = 2\<rparr>]
         \<and> select_existing Article (snd (post_reaction Article 1 1 2 db2)) 1 1 =
             [\<lparr>subject_id = 1, user_id = 1, reaction_id = 2\<rparr>]
         \<and> length (select_existing Article (snd (post_reaction Article 1 1 2 db2)) 1 1) = 1
         \<and> message (fst (post_reaction Article 1 1 2 db2)) = Reaction_changed"
    by (rule replace_deletes_all [OF s]) (simp_all add: e)
  then show ?thesis
    using s e by (simp add: db2_facts owned_def)
qed

section \<open>The kind named in a removal request\<close>

text \<open>
  C9. Two DELETE requests that differ only in the accepted \<open>reaction_id\<close> of their body
  get the same answer and leave the same store. On an existing subject the user's rows
  are gone afterwards, and the answer is "removed" exactly when the user had a row,
  whatever kind the body names.
\<close>

theorem remove_ignores_kind:
  assumes "validate_reaction (Some k1)" and "validate_reaction (Some k2)"
  shows "route_delete st (req\<lparr>body_reaction_id := Some k1\<rparr>) d =
         route_delete st (req\<lparr>body_reaction_id := Some k2\<rparr>) d
         \<and> (params_id req \<in> set (subjects st d) \<longrightarrow>
              select_existing st (snd (route_delete st (req\<lparr>body_reaction_id := Some k1\<rparr>) d))
                (params_id req) (req_user req) = []
              \<and> (fst (route_delete st (req\<lparr>body_reaction_id := Some k1\<rparr>) d) =
                   Response 200 Reaction_removed None)
                = (select_existing st d (params_id req) (req_user req) \<noteq> []))"
proof -
  let ?sid = "params_id req" and ?uid = "req_user req"
  have out: "select_existing st d ?sid ?uid = []" if "\<not> int4 ?uid"
    using that by (simp add: select_existing_out_of_range)
  show ?thesis
    using assms out
    by (auto simp: route_delete_def delete_reaction_eq select_existing_deleted)
qed

theorem remove_ignores_kind_witness:
  "validate_reaction (Some 1) \<and> validate_reaction (Some 3)
   \<and> route_delete Article \<lparr>params_id = 1, body_reaction_id = Some 3, req_user = 1\<rparr> db1 =
     route_delete Article \<lparr>params_id = 1, body_reaction_id = Some 1, req_user = 1\<rparr> db1
   \<and> fst (route_delete Article \<lparr>params_id = 1, body_reaction_id = Some 3, req_user = 1\<rparr> db1) =
       Response 200 Reaction_removed None
   \<and> select_existing Article
        (snd (route_delete Article \<lparr>params_id = 1, body_reaction_id = Some 3, req_user = 1\<rparr> db1))
        1 1 = []"
proof -
  have v: "validate_reaction (Some 3)" "validate_reaction (Some 1)"
    by (simp_all add: validate_reaction_def)
  have e: "select_existing Article db1 1 1 \<noteq> []"
    by (simp add: select_existing_def db1_facts owned_def)
  have sub: "params_id \<lparr>params_id = 1, body_reaction_id = None, req_user = 1\<rparr>
               \<in> set (subjects Article db1)"
    by (simp add: db1_facts)
  note t = remove_ignores_kind [OF v, of Article
      "\<lparr>params_id = 1, body_reaction_id = None, req_user = 1\<rparr>" db1]
  have h1: "route_delete Article \<lparr>params_id = 1, body_reaction_id = Some 3, req_user = 1\<rparr> db1 =
     route_delete Article \<lparr>params_id = 1, body_reaction_id = Some 1, req_user = 1\<rparr> db1"
    using t [THEN conjunct1] by simp
  have h2: "select_existing Article
        (snd (route_delete Article \<lparr>params_id = 1, body_reaction_id = Some 3, req_user = 1\<rparr> db1))
        1 1 = []"
    and h3: "(fst (route_delete Article \<lparr>params_id = 1, body_reaction_id = Some 3, req_user = 1\<rparr> db1) =
         Response 200 Reaction_removed None) = (select_existing Article db1 1 1 \<noteq> [])"
    using t [THEN conjunct2, THEN mp, OF sub] by simp_all
  have h4: "fst (route_delete Article \<lparr>params_id = 1, body_reaction_id = Some 3, req_user = 1\<rparr> db1) =
         Response 200 Reaction_removed None"
    using h3 e by blast
  show ?thesis
    using v h1 h2 h4 by (intro conjI)
qed

section \<open>The replace path, statement by statement\<close>

text \<open>
  C4, as stated (the old row is removed and the new one inserted as one atomic unit),
  fails on the code. User 1 holds kind 1 on article 1 and asks for kind 2: the handler
  sends five statements, and the store left by the fourth, the DELETE, has no row of the
  user on the article. It is neither the store before the request nor the store after it.
\<close>

theorem replace_not_atomic:
  "post_trace Article 1 1 2 5 Start db1 =
     [db1, db1, db1, db1\<lparr>article_reactions := []\<rparr>,
      db1\<lparr>article_reactions := [\<lparr>subject_id = 1, user_id = 1, reaction_id = 2\<rparr>]\<rparr>]
   \<and> fst (post_reaction Article 1 1 2 db1) =
       Response 201 Reaction_changed
         (Some \<lparr>p_subject_id = 1, p_user_id = 1, p_reaction_id = 2,
                p_emoji = ''-1'', p_name = ''dislike''\<rparr>)
   \<and> select_existing Article (db1\<lparr>article_reactions := []\<rparr>) 1 1 = []
   \<and> \<not> (\<forall>s \<in> set (post_trace Article 1 1 2 5 Start db1).
           s = db1 \<or> s = snd (post_reaction Article 1 1 2 db1))"
  by (simp add: eval_nat_numeral store_eval db1_def db0_def)

text \<open>
  C4, amended. On the replace path the handler sends three SELECTs, then the DELETE, then
  the INSERT, each a statement of its own and in this order. The DELETE leaves a store in
  which the user has no row on the subject; the INSERT, on that store, succeeds and leaves
  the store of the answer, in which the user has exactly the new row. When the request
  starts from a store with at most one row per (subject, user), every store on the way
  has that property.
\<close>

theorem replace_delete_then_insert:
  assumes "sid \<in> set (subjects st d)" and "rid \<in> set (map kind_id (reactions d))"
    and "uid \<in> set (map fst (users d))"
    and "select_existing st d sid uid \<noteq> []"
    and "reaction_id (hd (select_existing st d sid uid)) \<noteq> rid"
  shows "post_trace st sid uid rid 5 Start d =
           [d, d, d, snd (delete_existing st sid uid d), snd (post_reaction st sid uid rid d)]
         \<and> select_existing st (snd (delete_existing st sid uid d)) sid uid = []
         \<and> insert_reaction st sid uid rid (snd (delete_existing st sid uid d)) =
             Inr (snd (post_reaction st sid uid rid d))
         \<and> select_existing st (snd (post_reaction st sid uid rid d)) sid uid =
             [\<lparr>subject_id = sid, user_id = uid, reaction_id = rid\<rparr>]
         \<and> (single_assignment d \<longrightarrow>
              list_all single_assignment (post_trace st sid uid rid 5 Start d))"
proof -
  let ?d1 = "snd (delete_existing st sid uid d)"
  let ?new = "\<lparr>subject_id = sid, user_id = uid, reaction_id = rid\<rparr>"
  note tr = post_trace_replace [OF assms(1) assms(2) assms(4) assms(5)]
  obtain r rs where c: "select_existing st d sid uid = r # rs"
    using assms(4) by (cases "select_existing st d sid uid") auto
  have "reaction_id r \<noteq> rid" using assms(5) c by simp
  then have eq: "post_reaction st sid uid rid d =
      (Response 201 Reaction_changed
         (Some (reaction_json sid uid rid (hd (select_reaction d rid)))),
       set_assignments st
         (filter (\<lambda>r. \<not> owned sid uid r) (assignments st d) @ [?new]) d)"
    using post_reaction_eq [OF assms(1) assms(2) assms(3)] c by simp
  have ins: "insert_reaction st sid uid rid ?d1 =
               Inr (set_assignments st (assignments st ?d1 @ [?new]) ?d1)"
    using assms
    by (intro insert_reaction_fresh) (simp_all add: delete_existing_frame select_existing_deleted)
  have ins': "insert_reaction st sid uid rid ?d1 = Inr (snd (post_reaction st sid uid rid d))"
    unfolding ins eq by (simp add: assignments_deleted) (simp add: delete_existing_def set_assignments_twice)
  have look: "select_existing st (snd (post_reaction st sid uid rid d)) sid uid = [?new]"
    by (rule post_reaction_lookup) (simp add: eq)
  have inv: "list_all single_assignment (post_trace st sid uid rid 5 Start d)"
    if "single_assignment d"
    unfolding tr using that by (simp add: delete_existing_single post_reaction_single)
  show ?thesis
    using tr ins' look inv by (simp add: select_existing_deleted)
qed

theorem replace_delete_then_insert_witness:
  "1 \<in> set (subjects Article db1) \<and> 2 \<in> set (map kind_id (reactions db1))
   \<and> 1 \<in> set (map fst (users db1))
   \<and> select_existing Article db1 1 1 = [\<lparr>subject_id = 1, user_id = 1, reaction_id = 1\<rparr>]
   \<and> post_trace Article 1 1 2 5 Start db1 =
       [db1, db1, db1, snd (delete_existing Article 1 1 db1),
        snd (post_reaction Article 1 1 2 db1)]
   \<and> select_existing Article (snd (delete_existing Article 1 1 db1)) 1 1 = []
   \<and> select_existing Article (snd (post_reaction Article 1 1 2 db1)) 1 1 =
       [\<lparr>subject_id = 1, user_id = 1, reaction_id = 2\<rparr>]
   \<and> single_assignment db1
   \<and> list_all single_assignment (post_trace Article 1 1 2 5 Start db1)"
proof -
  have a: "1 \<in> set (subjects Article db1)" "2 \<in> set (map kind_id (reactions db1))"
    "1 \<in> set (map fst (users db1))"
    by (simp_all add: db1_facts)
  have e: "select_existing Article db1 1 1 = [\<lparr>subject_id = 1, user_id = 1, reaction_id = 1\<rparr>]"
    by (simp add: select_existing_def db1_facts owned_def)
  have n: "select_existing Article db1 1 1 \<noteq> []"
    and k: "reaction_id (hd (select_existing Article db1 1 1)) \<noteq> 2"
    by (simp_all add: e)
  have s: "single_assignment db1"
    by (simp add: single_assignment_def db1_facts key_def)
  note t = replace_delete_then_insert [OF a n k]
  have t1: "post_trace Article 1 1 2 5 Start db1 =
       [db1, db1, db1, snd (delete_existing Article 1 1 db1),
        snd (post_reaction Article 1 1 2 db1)]"
    and t2: "select_existing Article (snd (delete_existing Article 1 1 db1)) 1 1 = []"
    and t3: "select_existing Article (snd (post_reaction Article 1 1 2 db1)) 1 1 =
       [\<lparr>subject_id = 1, user_id = 1, reaction_id = 2\<rparr>]"
    and t4: "single_assignment db1 \<longrightarrow>
       list_all single_assignment (post_trace Article 1 1 2 5 Start db1)"
    using t by blast+
  have t5: "list_all single_assignment (post_trace Article 1 1 2 5 Start db1)"
    using t4 s by (rule mp)
  show ?thesis
    using a e s t1 t2 t3 t5 by (intro conjI)
qed

section \<open>Two requests in flight together\<close>

text \<open>
  C8. User 1 has no reaction on article 1 and sends two POST requests, for kind 1 and for
  kind 2. When both requests have read the user's rows (none) before either inserts, both
  INSERTs succeed and both requests are answered 201 "added": the store ends with two rows
  of the user on the article. The constraint of the schema is
  \<open>UNIQUE(article_id, user_id, reaction_id)\<close>, which two rows of different kinds satisfy;
  it rejects neither.
\<close>

theorem concurrent_assign_two_rows:
  "interleave Article 1 1 1 2 [True, True, True, False, False, False, True, False]
     Start Start db0 =
     (Finished (Response 201 Reaction_added
        (Some \<lparr>p_subject_id = 1, p_user_id = 1, p_reaction_id = 1,
               p_emoji = ''+1'', p_name = ''like''\<rparr>)),
      Finished (Response 201 Reaction_added
        (Some \<lparr>p_subject_id = 1, p_user_id = 1, p_reaction_id = 2,
               p_emoji = ''-1'', p_name = ''dislike''\<rparr>)),
      db2)
   \<and> select_existing Article db2 1 1 =
       [\<lparr>subject_id = 1, user_id = 1, reaction_id = 1\<rparr>,
        \<lparr>subject_id = 1, user_id = 1, reaction_id = 2\<rparr>]
   \<and> \<not> single_assignment db2
   \<and> insert_reaction Article 1 1 2 db1 = Inr db2"
  by (simp add: store_eval db2_def db1_def db0_def single_assignment_def key_def)

section \<open>Aggregation\<close>

text \<open>
  C7. With the catalog's primary key (no two kinds with one id), \<open>reactionsQuery\<close>
  returns one row per kind of the catalog, ordered by id: the kind, the number of reaction
  rows of that kind on the subject, and whether the requesting user has a row of that
  kind on the subject. Without a requesting user the flag is false for every kind. The
  GET routes of the reaction router, which take no identity, return the same kinds with
  the same counts on an existing subject (with the users' primary key). In the sample
  store where three users hold the kinds 1, 2 and 3 on article 1, these kinds have count
  1 and the other two kinds of the catalog count 0.
\<close>

theorem aggregation_contract:
  assumes "distinct (map kind_id (reactions d))"
  shows "reactionsQuery st d requester sid =
     map (\<lambda>r. \<lparr>s_id = kind_id r, s_emoji = emoji r, s_name = kind_name r,
                 s_count = length (filter (\<lambda>ar. subject_id ar = sid \<and> reaction_id ar = kind_id r)
                                     (assignments st d)),
                 s_user_reacted =
                   (case requester of
                      None \<Rightarrow> False
                    | Some uid \<Rightarrow> \<lparr>subject_id = sid, user_id = uid, reaction_id = kind_id r\<rparr>
                                    \<in> set (assignments st d))\<rparr>)
         (sort_key kind_id (reactions d))
   \<and> map s_user_reacted (reactionsQuery st d None sid) =
       replicate (length (reactions d)) False
   \<and> (distinct (map fst (users d)) \<and> sid \<in> set (subjects st d) \<longrightarrow>
        (\<exists>rows. get_reactions st d sid = Inr rows
           \<and> map (\<lambda>x. (u_id x, u_emoji x, u_name x, u_count x)) rows =
             map (\<lambda>r. (kind_id r, emoji r, kind_name r,
                        length (filter (\<lambda>ar. subject_id ar = sid \<and> reaction_id ar = kind_id r)
                                  (assignments st d))))
               (sort_key kind_id (reactions d))))"
proof (intro conjI impI)
  show "reactionsQuery st d requester sid =
     map (\<lambda>r. \<lparr>s_id = kind_id r, s_emoji = emoji r, s_name = kind_name r,
                 s_count = length (filter (\<lambda>ar. subject_id ar = sid \<and> reaction_id ar = kind_id r)
                                     (assignments st d)),
                 s_user_reacted =
                   (case requester of
                      None \<Rightarrow> False
                    | Some uid \<Rightarrow> \<lparr>subject_id = sid, user_id = uid, reaction_id = kind_id r\<rparr>
                                    \<in> set (assignments st d))\<rparr>)
         (sort_key kind_id (reactions d))"
    by (rule reactionsQuery_eq [OF assms])
next
  have "map s_user_reacted (reactionsQuery st d None sid) =
          map (\<lambda>r. False) (sort_key kind_id (reactions d))"
    by (simp add: reactionsQuery_eq [OF assms] comp_def)
  also have "\<dots> = replicate (length (reactions d)) False"
    by (simp add: map_replicate_const)
  finally show "map s_user_reacted (reactionsQuery st d None sid) =
       replicate (length (reactions d)) False" .
next
  assume "distinct (map fst (users d)) \<and> sid \<in> set (subjects st d)"
  then show "\<exists>rows. get_reactions st d sid = Inr rows
           \<and> map (\<lambda>x. (u_id x, u_emoji x, u_name x, u_count x)) rows =
             map (\<lambda>r. (kind_id r, emoji r, kind_name r,
                        length (filter (\<lambda>ar. subject_id ar = sid \<and> reaction_id ar = kind_id r)
                                  (assignments st d))))
               (sort_key kind_id (reactions d))"
    using get_reactions_counts [OF assms] by blast
qed

theorem aggregation_contract_witness:
  "distinct (map kind_id (reactions db3))
   \<and> reactionsQuery Article db3 (Some 2) 1 =
       [\<lparr>s_id = 1, s_emoji = ''+1'', s_name = ''like'', s_count = 1, s_user_reacted = False\<rparr>,
        \<lparr>s_id = 2, s_emoji = ''-1'', s_name = ''dislike'', s_count = 1, s_user_reacted = True\<rparr>,
        \<lparr>s_id = 3, s_emoji = ''<3'', s_name = ''love'', s_count = 1, s_user_reacted = False\<rparr>,
        \<lparr>s_id = 4, s_emoji = '':D'', s_name = ''laugh'', s_count = 0, s_user_reacted = False\<rparr>,
        \<lparr>s_id = 5, s_emoji = '':o'', s_name = ''wow'', s_count = 0, s_user_reacted = False\<rparr>]
   \<and> map s_user_reacted (reactionsQuery Article db3 None 1) =
       [False, False, False, False, False]"
proof -
  have k: "distinct (map kind_id (reactions db3))"
    by (simp add: db3_facts)
  have c: "reactions db3 =
      [\<lparr>kind_id = 1, emoji = ''+1'', kind_name = ''like''\<rparr>,
       \<lparr>kind_id = 2, emoji = ''-1'', kind_name = ''dislike''\<rparr>,
       \<lparr>kind_id = 3, emoji = ''<3'', kind_name = ''love''\<rparr>,
       \<lparr>kind_id = 4, emoji = '':D'', kind_name = ''laugh''\<rparr>,
       \<lparr>kind_id = 5, emoji = '':o'', kind_name = ''wow''\<rparr>]"
    by (simp add: db3_def db0_def reactions_def int4_def)
  note t = aggregation_contract [OF k, of Article "Some 2" 1]
  have q: "reactionsQuery Article db3 (Some 2) 1 =
       [\<lparr>s_id = 1, s_emoji = ''+1'', s_name = ''like'', s_count = 1, s_user_reacted = False\<rparr>,
        \<lparr>s_id = 2, s_emoji = ''-1'', s_name = ''dislike'', s_count = 1, s_user_reacted = True\<rparr>,
        \<lparr>s_id = 3, s_emoji = ''<3'', s_name = ''love'', s_count = 1, s_user_reacted = False\<rparr>,
        \<lparr>s_id = 4, s_emoji = '':D'', s_name = ''laugh'', s_count = 0, s_user_reacted = False\<rparr>,
        \<lparr>s_id = 5, s_emoji = '':o'', s_name = ''wow'', s_count = 0, s_user_reacted = False\<rparr>]"
    unfolding t [THEN conjunct1] by (simp add: c db3_facts)
  have n: "map s_user_reacted (reactionsQuery Article db3 None 1) =
       [False, False, False, False, False]"
    unfolding t [THEN conjunct2, THEN conjunct1] by (simp add: c)
  show ?thesis using k q n by (intro conjI)
qed

end
